theory Spec2Isabelle
  imports Main "HOL-Library.Word"
begin

section \<open>The surface lifecycle of \<open>Window_vulkan\<close>\<close>

text \<open>
  A shallow embedding of \<^verbatim>\<open>src/ttauri/GUI/Window_vulkan.cpp\<close>: the lifecycle state
  machine (\<^verbatim>\<open>build\<close>, \<^verbatim>\<open>teardown\<close>) and the per-tick frame protocol (\<^verbatim>\<open>render\<close>).

  \<^item> The window object is a record of the members the three functions read or write.
  \<^item> Every call that leaves the window (Vulkan device, queue, pipelines, delegate,
    operating system) is appended, in program order, to the member \<open>calls\<close>; what such
    a call answers is read from a record of answers, \<open>Collaborators\<close>.
  \<^item> A C++ exception, a failed check and \<^verbatim>\<open>LOG_FATAL\<close> are the left summand of the
    result, together with the window as it was when control left.
  \<^item> The recursive mutex \<^verbatim>\<open>gui_system_mutex\<close> is held throughout and is not modelled.
  \<^item> A call into Vulkan whose failure the source neither tests nor catches
    (creation and destruction of images, views, passes, buffers, semaphores) is
    taken to return normally.
\<close>

subsection \<open>Lifecycle state\<close>

datatype State =
  NoWindow | NoDevice | NoSurface | NoSwapchain | ReadyToRender
  | SwapchainLost | SurfaceLost | DeviceLost | WindowLost

text \<open>
  Modelled from the spec: the declaration of \<^verbatim>\<open>Window_base::State\<close> is not among the
  sources, only its uses are. Section 3 of the specification orders the values
  \<open>NoDevice < NoSurface < NoSwapchain < ReadyToRender\<close> and puts the loss markers
  \<open>SwapchainLost, SurfaceLost, DeviceLost, WindowLost\<close> above \<open>ReadyToRender\<close>, each
  deeper loss above the shallower one; \<open>NoWindow\<close> is terminal, so it lies below every
  value that \<^verbatim>\<open>build\<close> or \<^verbatim>\<open>teardown\<close> acts on.
\<close>

fun State_ord :: "State \<Rightarrow> nat" where
  "State_ord NoWindow = 0"
| "State_ord NoDevice = 1"
| "State_ord NoSurface = 2"
| "State_ord NoSwapchain = 3"
| "State_ord ReadyToRender = 4"
| "State_ord SwapchainLost = 5"
| "State_ord SurfaceLost = 6"
| "State_ord DeviceLost = 7"
| "State_ord WindowLost = 8"

text \<open>\<^verbatim>\<open>state >= State::X\<close> on the enumeration.\<close>

definition State_ge :: "State \<Rightarrow> State \<Rightarrow> bool" where
  "State_ge s t = (State_ord t \<le> State_ord s)"

subsection \<open>Vulkan values and the calls that leave the window\<close>

datatype vk_Result =
  eSuccess | eNotReady | eTimeout | eSuboptimalKHR
  | eErrorOutOfDateKHR | eErrorSurfaceLostKHR | eErrorDeviceLost
  | eErrorOutOfHostMemory | eErrorOutOfDeviceMemory | eErrorInitializationFailed
  | eErrorNativeWindowInUseKHR

text \<open>
  A call through the C++ binding either returns a value or throws the exception of an
  error code (\<^verbatim>\<open>vk::SurfaceLostKHRError\<close> is \<open>Throws eErrorSurfaceLostKHR\<close>).
\<close>

datatype 'a vk_outcome = Returns 'a | Throws vk_Result

record Extent2D =
  width :: "32 word"
  height :: "32 word"

record SurfaceCapabilitiesKHR =
  minImageCount :: "32 word"
  maxImageCount :: "32 word"
  currentExtent :: Extent2D

datatype Pipeline = flatPipeline | boxPipeline | imagePipeline | SDFPipeline | toneMapperPipeline

datatype Semaphore = imageAvailableSemaphore | renderFinishedSemaphore

datatype PipelineStage = eColorAttachmentOutput

text \<open>
  The objects the window creates on the device or the system and destroys again, named
  by the member that holds the handle; a swapchain image's view and framebuffer are
  named by the image's handle.
\<close>

datatype Object =
  swapchain | depthImage | colorImage | renderPass
  | depthImageView | colorImageView | swapchainImageView nat
  | swapchainFramebuffer nat
  | commandBuffer
  | semaphore Semaphore
  | fence
  | surface

text \<open>The lifecycle contract of a pipeline (\<^verbatim>\<open>Pipeline_vulkan\<close>).\<close>

datatype Notification =
  buildForNewDevice | buildForNewSurface | buildForNewSwapchain nat Extent2D
  | teardownForSwapchainLost | teardownForSurfaceLost | teardownForDeviceLost
  | teardownForWindowLost

text \<open>What \<^verbatim>\<open>fillCommandBuffer\<close> records.\<close>

datatype Command =
  cmd_reset | cmd_begin | beginRenderPass nat | drawInCommandBuffer Pipeline
  | nextSubpass | endRenderPass | cmd_end

text \<open>
  One constructor for each kind of call the three functions make on a collaborator,
  with the arguments the claims are about.
  \<open>Create (semaphore s)\<close> is \<^verbatim>\<open>createSemaphore\<close>, \<open>Create commandBuffer\<close> is
  \<^verbatim>\<open>allocateCommandBuffers\<close>, \<open>Create surface\<close> is \<^verbatim>\<open>getSurface()\<close>;
  \<open>CreateFence signaled\<close> is \<^verbatim>\<open>createFence\<close> with or without \<^verbatim>\<open>eSignaled\<close>.
  \<open>WaitForFences t\<close> and \<open>AcquireNextImageKHR t s\<close> carry the timeout.
  \<open>QueueSubmit waits stages n signals f\<close> is \<^verbatim>\<open>graphicsQueue.submit\<close> of \<open>n\<close> command
  buffers; \<open>f\<close> tells whether \<^verbatim>\<open>renderFinishedFence\<close> was passed (\<open>False\<close>: the null
  fence \<^verbatim>\<open>vk::Fence()\<close>). \<open>PresentKHR waits i\<close> presents image \<open>i\<close>.
\<close>

datatype Call =
  WaitForFences "64 word"
  | DeviceWaitIdle
  | ResetFences
  | AcquireNextImageKHR "64 word" Semaphore
  | QueueSubmit "Semaphore list" "PipelineStage list" nat "Semaphore list" bool
  | PresentKHR "Semaphore list" "32 word"
  | WidgetDraw
  | Record Command
  | Notify Pipeline Notification
  | CreateSwapchainKHR "32 word" Extent2D
  | CreateImage Object Extent2D
  | CreateFramebuffer nat Extent2D
  | CreateFence bool
  | Create Object
  | Destroy Object
  | ClosingWindow
  | SetWindowSize "int \<times> int"
  | SetLayoutParameters "int \<times> int"
  | WindowChangedSize Extent2D

text \<open>
  Modelled from the spec: the macros \<^verbatim>\<open>tt_assume\<close>, \<^verbatim>\<open>tt_assert\<close>, \<^verbatim>\<open>LOG_FATAL\<close> and
  \<^verbatim>\<open>TTAURI_THROW\<close> are used by the file and defined elsewhere. By section 7 of the
  specification a violated precondition is an unrecoverable assertion failure and an
  unexpected result of the API is a fatal condition handed to the caller. So a
  failed \<^verbatim>\<open>tt_assume\<close> or \<^verbatim>\<open>tt_assert\<close> is \<open>assertion_failure\<close>, \<^verbatim>\<open>LOG_FATAL\<close> is
  \<open>fatal_log\<close>, and \<^verbatim>\<open>TTAURI_THROW(gui_error(text).set<vk_result_tag>(r))\<close> is
  \<open>gui_error text r\<close>. An exception of the Vulkan binding that nothing catches is
  \<open>vk_SystemError\<close>, and \<^verbatim>\<open>std::vector::at\<close> beyond the end is \<open>out_of_range\<close>.
\<close>

datatype error =
  gui_error string vk_Result
  | vk_SystemError vk_Result
  | assertion_failure
  | fatal_log
  | out_of_range

subsection \<open>The window\<close>

text \<open>
  \<open>device\<close> is the pointer \<^verbatim>\<open>_device\<close> (\<open>None\<close>: null). \<open>renderFinishedFence\<close> tells
  whether the member holds a non-null handle: it is null until \<^verbatim>\<open>buildSemaphores\<close>
  stores the created fence, and destroying the fence does not clear the member.
  \<open>nrSwapchainImages\<close> is stored from, and compared with, a \<^verbatim>\<open>uint32_t\<close>.
\<close>

record Window =
  state :: State
  device :: "nat option"
  nrSwapchainImages :: "32 word"
  swapchainImageExtent :: Extent2D
  swapchainFramebuffers :: "nat list"
  swapchainImageViews :: "nat list"
  renderFinishedFence :: bool
  currentWindowExtent :: "int \<times> int"
  requestResize :: bool
  requestLayout :: bool
  requestRedraw :: bool
  request_setting_change :: bool
  calls :: "Call list"

type_synonym result = "(error \<times> Window) + Window"

text \<open>Statements in sequence: the first one that throws ends the sequence.\<close>

fun seq :: "(Window \<Rightarrow> result) list \<Rightarrow> Window \<Rightarrow> result" where
  "seq [] w = Inr w"
| "seq (f # fs) w = (case f w of Inl e \<Rightarrow> Inl e | Inr w' \<Rightarrow> seq fs w')"

definition call :: "Call list \<Rightarrow> Window \<Rightarrow> result" where
  "call cs w = Inr (w\<lparr>calls := calls w @ cs\<rparr>)"

text \<open>
  \<^verbatim>\<open>vulkan_device()\<close> checks \<^verbatim>\<open>tt_assume(_device != nullptr)\<close> before it hands out the
  device; \<open>device_call cs\<close> is a statement \<^verbatim>\<open>vulkan_device().f(...)\<close>.
\<close>

definition device_call :: "Call list \<Rightarrow> Window \<Rightarrow> result" where
  "device_call cs w =
     (if device w = None then Inl (assertion_failure, w) else call cs w)"

definition all_pipelines_reversed :: "Pipeline list" where
  "all_pipelines_reversed =
     [toneMapperPipeline, SDFPipeline, imagePipeline, boxPipeline, flatPipeline]"

definition all_pipelines :: "Pipeline list" where
  "all_pipelines =
     [flatPipeline, boxPipeline, imagePipeline, SDFPipeline, toneMapperPipeline]"

subsection \<open>Teardown\<close>

definition waitIdle :: "Window \<Rightarrow> result" where
  "waitIdle w =
     (if device w = None then Inl (assertion_failure, w)
      else seq [
        (\<lambda>w. if renderFinishedFence w then device_call [WaitForFences (- 1)] w else Inr w),
        device_call [DeviceWaitIdle]] w)"

definition teardownSemaphores :: "Window \<Rightarrow> result" where
  "teardownSemaphores =
     seq [device_call [Destroy (semaphore renderFinishedSemaphore)],
          device_call [Destroy (semaphore imageAvailableSemaphore)],
          device_call [Destroy fence]]"

definition teardownCommandBuffers :: "Window \<Rightarrow> result" where
  "teardownCommandBuffers = device_call [Destroy commandBuffer]"

definition teardownFramebuffers :: "Window \<Rightarrow> result" where
  "teardownFramebuffers =
     seq [(\<lambda>w. seq (map (\<lambda>fb. device_call [Destroy (swapchainFramebuffer fb)]) (swapchainFramebuffers w)) w),
          (\<lambda>w. Inr (w\<lparr>swapchainFramebuffers := []\<rparr>)),
          (\<lambda>w. seq (map (\<lambda>v. device_call [Destroy (swapchainImageView v)])
                         (swapchainImageViews w)) w),
          (\<lambda>w. Inr (w\<lparr>swapchainImageViews := []\<rparr>)),
          device_call [Destroy depthImageView],
          device_call [Destroy colorImageView]]"

definition teardownRenderPasses :: "Window \<Rightarrow> result" where
  "teardownRenderPasses = device_call [Destroy renderPass]"

definition teardownSwapchain :: "Window \<Rightarrow> result" where
  "teardownSwapchain =
     seq [device_call [Destroy swapchain],
          device_call [Destroy depthImage],
          device_call [Destroy colorImage]]"

definition teardownSurface :: "Window \<Rightarrow> result" where
  "teardownSurface = call [Destroy surface]"

definition teardownDevice :: "Window \<Rightarrow> result" where
  "teardownDevice w = Inr (w\<lparr>device := None\<rparr>)"

text \<open>
  \<^verbatim>\<open>teardown\<close> compares the state it was entered with (\<open>s\<close>) in every nested test and
  stores \<^verbatim>\<open>nextState\<close> once, at the end.
\<close>

definition teardown :: "Window \<Rightarrow> result" where
  "teardown w =
     (let s = state w in
      if State_ge s SwapchainLost then
        seq ([waitIdle,
              call (map (\<lambda>p. Notify p teardownForSwapchainLost) all_pipelines_reversed),
              teardownSemaphores,
              teardownCommandBuffers,
              teardownFramebuffers,
              teardownRenderPasses,
              teardownSwapchain] @
             (if State_ge s SurfaceLost then
                [call (map (\<lambda>p. Notify p teardownForSurfaceLost) all_pipelines_reversed),
                 teardownSurface] @
                (if State_ge s DeviceLost then
                   [call (map (\<lambda>p. Notify p teardownForDeviceLost) all_pipelines_reversed),
                    teardownDevice] @
                   (if State_ge s WindowLost then
                      [call (map (\<lambda>p. Notify p teardownForWindowLost) all_pipelines_reversed),
                       call [ClosingWindow],
                       (\<lambda>w. Inr (w\<lparr>state := NoWindow\<rparr>))]
                    else [(\<lambda>w. Inr (w\<lparr>state := NoDevice\<rparr>))])
                 else [(\<lambda>w. Inr (w\<lparr>state := NoSurface\<rparr>))])
              else [(\<lambda>w. Inr (w\<lparr>state := NoSwapchain\<rparr>))])) w
      else Inr (w\<lparr>state := s\<rparr>))"

subsection \<open>The window is destroyed\<close>


subsection \<open>What the collaborators answer during one tick\<close>

text \<open>
  The external conditions of one call of \<^verbatim>\<open>build\<close> or \<^verbatim>\<open>render\<close>. The surface
  capabilities are queried twice by \<^verbatim>\<open>build\<close> (\<^verbatim>\<open>readSurfaceExtent\<close>, then
  \<^verbatim>\<open>checkSurfaceExtent\<close>) and the widget's preferred size is asked for once by
  \<^verbatim>\<open>build\<close> and once by \<^verbatim>\<open>render\<close>, so each of these has two answers. A preferred
  size is the pair (minimum, maximum) of (width, height) pairs.
  \<open>defaultNumberOfSwapchainImages\<close> is a constant of the class whose declaration is
  not among the sources.
\<close>

record Collaborators =
  score :: int
  surfaceCapabilities_read :: "SurfaceCapabilitiesKHR vk_outcome"
  surfaceCapabilities_check :: "SurfaceCapabilitiesKHR vk_outcome"
  defaultNumberOfSwapchainImages :: "32 word"
  createSwapchainKHR :: vk_Result
  getSwapchainImagesKHR :: "nat list"
  preferred_size_build :: "(int \<times> int) \<times> (int \<times> int)"
  update_constraints :: "bool \<Rightarrow> bool"
  preferred_size_render :: "(int \<times> int) \<times> (int \<times> int)"
  update_layout :: "bool \<Rightarrow> bool"
  acquireNextImageKHR :: "vk_Result \<times> 32 word"
  presentKHR :: "vk_Result vk_outcome"

subsection \<open>Reading the surface\<close>

text \<open>\<^verbatim>\<open>std::clamp(v, lo, hi)\<close> on \<^verbatim>\<open>uint32_t\<close>.\<close>

definition std_clamp :: "32 word \<Rightarrow> 32 word \<Rightarrow> 32 word \<Rightarrow> 32 word" where
  "std_clamp v lo hi = (if v < lo then lo else if hi < v then hi else v)"

text \<open>
  \<^verbatim>\<open>narrow_cast<int>\<close> of a \<^verbatim>\<open>uint32_t\<close> (the template is defined elsewhere): the
  value of the \<^verbatim>\<open>static_cast\<close>, which is the extent itself below \<open>2^31\<close>.
\<close>

definition narrow_cast_int :: "32 word \<Rightarrow> int" where
  "narrow_cast_int x = sint x"

text \<open>
  \<open>answer\<close> is what \<^verbatim>\<open>getSurfaceCapabilitiesKHR\<close> does on this call. \<^verbatim>\<open>LOG_FATAL\<close> ends
  the program.
\<close>

definition getImageCountAndExtent ::
  "Collaborators \<Rightarrow> SurfaceCapabilitiesKHR vk_outcome \<Rightarrow> Window \<Rightarrow> error + (32 word \<times> Extent2D)" where
  "getImageCountAndExtent c answer w =
     (if device w = None then Inl assertion_failure
      else case answer of
        Throws r \<Rightarrow> Inl (vk_SystemError r)
      | Returns surfaceCapabilities \<Rightarrow>
          (let currentExtentSet =
                 (width (currentExtent surfaceCapabilities) \<noteq> - 1 \<and>
                  height (currentExtent surfaceCapabilities) \<noteq> - 1)
           in if \<not> currentExtentSet then Inl fatal_log
              else
                (let minImageCount = minImageCount surfaceCapabilities;
                     maxImageCount = (if maxImageCount surfaceCapabilities \<noteq> 0
                                      then maxImageCount surfaceCapabilities else 10);
                     imageCount = std_clamp (defaultNumberOfSwapchainImages c) minImageCount maxImageCount
                 in Inr (imageCount, currentExtent surfaceCapabilities))))"

definition readSurfaceExtent :: "Collaborators \<Rightarrow> Window \<Rightarrow> (error \<times> Window) + (bool \<times> Window)" where
  "readSurfaceExtent c w =
     (case getImageCountAndExtent c (surfaceCapabilities_read c) w of
        Inl e \<Rightarrow>
          (if e = vk_SystemError eErrorSurfaceLostKHR then Inr (False, w\<lparr>state := SurfaceLost\<rparr>)
           else Inl (e, w))
      | Inr (n, extent) \<Rightarrow>
          (let w1 = w\<lparr>nrSwapchainImages := n, swapchainImageExtent := extent\<rparr>;
               minimum_widget_size = fst (preferred_size_build c);
               maximum_widget_size = snd (preferred_size_build c)
           in if narrow_cast_int (width extent) < fst minimum_widget_size \<or>
                 narrow_cast_int (height extent) < snd minimum_widget_size
              then Inr (False, w1)
              else if narrow_cast_int (width extent) > fst maximum_widget_size \<or>
                      narrow_cast_int (height extent) > snd maximum_widget_size
              then Inr (False, w1)
              else Inr (True, w1)))"

definition checkSurfaceExtent :: "Collaborators \<Rightarrow> Window \<Rightarrow> (error \<times> Window) + (bool \<times> Window)" where
  "checkSurfaceExtent c w =
     (case getImageCountAndExtent c (surfaceCapabilities_check c) w of
        Inl e \<Rightarrow>
          (if e = vk_SystemError eErrorSurfaceLostKHR then Inr (False, w\<lparr>state := SurfaceLost\<rparr>)
           else Inl (e, w))
      | Inr (nrImages, extent) \<Rightarrow>
          Inr (nrImages = nrSwapchainImages w \<and> extent = swapchainImageExtent w, w))"

subsection \<open>Build\<close>

definition buildSurface :: "Collaborators \<Rightarrow> Window \<Rightarrow> (error \<times> Window) + (bool \<times> Window)" where
  "buildSurface c w =
     (let w1 = w\<lparr>calls := calls w @ [Create surface]\<rparr>
      in if device w1 = None then Inl (assertion_failure, w1)
         else Inr (score c > 0, w1))"

definition buildSwapchain :: "Collaborators \<Rightarrow> Window \<Rightarrow> (error \<times> Window) + (State \<times> Window)" where
  "buildSwapchain c w =
     (if device w = None then Inl (assertion_failure, w)
      else
        (let w1 = w\<lparr>calls := calls w @
                     [CreateSwapchainKHR (nrSwapchainImages w) (swapchainImageExtent w)]\<rparr>;
             result = createSwapchainKHR c
         in if result = eSuccess then
              Inr (ReadyToRender,
                   w1\<lparr>calls := calls w1 @
                     [CreateImage depthImage (swapchainImageExtent w),
                      CreateImage colorImage (swapchainImageExtent w)]\<rparr>)
            else if result = eErrorSurfaceLostKHR then Inr (SurfaceLost, w1)
            else Inl (gui_error ''Unknown result from createSwapchainKHR()'' result, w1)))"

definition buildRenderPasses :: "Window \<Rightarrow> result" where
  "buildRenderPasses = device_call [Create renderPass]"

text \<open>
  The loop of \<^verbatim>\<open>buildFramebuffers\<close> over the images of the swapchain: a view and a
  framebuffer for each, pushed to the back of the two vectors.
\<close>

definition buildFramebuffers :: "Collaborators \<Rightarrow> Window \<Rightarrow> result" where
  "buildFramebuffers c =
     seq ([device_call [Create depthImageView],
           device_call [Create colorImageView]] @
          concat (map (\<lambda>image.
            [device_call [Create (swapchainImageView image)],
             (\<lambda>w. Inr (w\<lparr>swapchainImageViews := swapchainImageViews w @ [image]\<rparr>)),
             (\<lambda>w. device_call [CreateFramebuffer image (swapchainImageExtent w)] w),
             (\<lambda>w. Inr (w\<lparr>swapchainFramebuffers := swapchainFramebuffers w @ [image]\<rparr>))])
            (getSwapchainImagesKHR c)))"

definition buildCommandBuffers :: "Window \<Rightarrow> result" where
  "buildCommandBuffers = device_call [Create commandBuffer]"

definition buildSemaphores :: "Window \<Rightarrow> result" where
  "buildSemaphores =
     seq [device_call [Create (semaphore imageAvailableSemaphore)],
          device_call [Create (semaphore renderFinishedSemaphore)],
          device_call [CreateFence True],
          (\<lambda>w. Inr (w\<lparr>renderFinishedFence := True\<rparr>))]"

text \<open>
  The third block of \<^verbatim>\<open>build\<close>, \<^verbatim>\<open>if (state == State::NoSwapchain) { ... }\<close>, with its
  three early returns.
\<close>

definition build_NoSwapchain :: "Collaborators \<Rightarrow> Window \<Rightarrow> result" where
  "build_NoSwapchain c w =
     (if state w \<noteq> NoSwapchain then Inr w
      else
       (case readSurfaceExtent c w of
          Inl e \<Rightarrow> Inl e
        | Inr (ok, w1) \<Rightarrow>
           (if \<not> ok then Inr (w1\<lparr>state := NoSwapchain\<rparr>)
            else
             (case buildSwapchain c w1 of
                Inl e \<Rightarrow> Inl e
              | Inr (s, w2) \<Rightarrow>
                 (if s \<noteq> ReadyToRender then Inr (w2\<lparr>state := s\<rparr>)
                  else
                   (case checkSurfaceExtent c w2 of
                      Inl e \<Rightarrow> Inl e
                    | Inr (same, w3) \<Rightarrow>
                       (if \<not> same then teardownSwapchain w3
                        else seq [buildRenderPasses,
                                  buildFramebuffers c,
                                  buildCommandBuffers,
                                  buildSemaphores,
                                  (\<lambda>w. call (map (\<lambda>(p, i). Notify p
                                                     (buildForNewSwapchain i (swapchainImageExtent w)))
                                                (zip all_pipelines [0, 1, 2, 3, 4])) w),
                                  (\<lambda>w. call [WindowChangedSize (swapchainImageExtent w)] w),
                                  (\<lambda>w. Inr (w\<lparr>state := ReadyToRender\<rparr>))] w3)))))))"

definition build :: "Collaborators \<Rightarrow> Window \<Rightarrow> result" where
  "build c w =
     (let w1 = (if state w = NoDevice \<and> device w \<noteq> None
                then w\<lparr>calls := calls w @ map (\<lambda>p. Notify p buildForNewDevice) all_pipelines,
                       state := NoSurface\<rparr>
                else w)
      in if state w1 = NoSurface then
           (case buildSurface c w1 of
              Inl e \<Rightarrow> Inl e
            | Inr (ok, w2) \<Rightarrow>
                if \<not> ok then Inr (w2\<lparr>state := DeviceLost\<rparr>)
                else build_NoSwapchain c
                       (w2\<lparr>calls := calls w2 @ map (\<lambda>p. Notify p buildForNewSurface) all_pipelines,
                           state := NoSwapchain\<rparr>))
         else build_NoSwapchain c w1)"

subsection \<open>The frame\<close>

definition acquireNextImageFromSwapchain ::
  "Collaborators \<Rightarrow> Window \<Rightarrow> (error \<times> Window) + (32 word option \<times> Window)" where
  "acquireNextImageFromSwapchain c w =
     (if device w = None then Inl (assertion_failure, w)
      else
        (let w1 = w\<lparr>calls := calls w @ [AcquireNextImageKHR 0 imageAvailableSemaphore]\<rparr>;
             result = fst (acquireNextImageKHR c);
             frameBufferIndex = snd (acquireNextImageKHR c)
         in if result = eSuccess then Inr (Some frameBufferIndex, w1)
            else if result = eSuboptimalKHR then Inr (None, w1\<lparr>state := SwapchainLost\<rparr>)
            else if result = eErrorOutOfDateKHR then Inr (None, w1\<lparr>state := SwapchainLost\<rparr>)
            else if result = eErrorSurfaceLostKHR then Inr (None, w1\<lparr>state := SurfaceLost\<rparr>)
            else if result = eTimeout then Inr (None, w1)
            else Inl (gui_error ''Unknown result from acquireNextImageKHR()'' result, w1)))"

text \<open>
  \<^verbatim>\<open>presentKHR\<close> is called inside a \<^verbatim>\<open>try\<close> whose handlers catch
  \<^verbatim>\<open>vk::OutOfDateKHRError\<close> and \<^verbatim>\<open>vk::SurfaceLostKHRError\<close>; the \<^verbatim>\<open>gui_error\<close> thrown
  by the \<^verbatim>\<open>default\<close> label and every other exception of the call leave the function.
\<close>

definition presentImageToQueue :: "Collaborators \<Rightarrow> 32 word \<Rightarrow> Semaphore \<Rightarrow> Window \<Rightarrow> result" where
  "presentImageToQueue c frameBufferIndex sem w =
     (if device w = None then Inl (assertion_failure, w)
      else
        (let w1 = w\<lparr>calls := calls w @ [PresentKHR [sem] frameBufferIndex]\<rparr>
         in case presentKHR c of
              Returns result \<Rightarrow>
                (if result = eSuccess then Inr w1
                 else if result = eSuboptimalKHR then Inr (w1\<lparr>state := SwapchainLost\<rparr>)
                 else Inl (gui_error ''Unknown result from presentKHR()'' result, w1))
            | Throws r \<Rightarrow>
                (if r = eErrorOutOfDateKHR then Inr (w1\<lparr>state := SwapchainLost\<rparr>)
                 else if r = eErrorSurfaceLostKHR then Inr (w1\<lparr>state := SurfaceLost\<rparr>)
                 else Inl (vk_SystemError r, w1))))"

definition fillCommandBuffer :: "nat \<Rightarrow> Window \<Rightarrow> result" where
  "fillCommandBuffer frameBuffer =
     call [Record cmd_reset, Record cmd_begin, Record (beginRenderPass frameBuffer),
           Record (drawInCommandBuffer flatPipeline),
           Record nextSubpass, Record (drawInCommandBuffer boxPipeline),
           Record nextSubpass, Record (drawInCommandBuffer imagePipeline),
           Record nextSubpass, Record (drawInCommandBuffer SDFPipeline),
           Record nextSubpass, Record (drawInCommandBuffer toneMapperPipeline),
           Record endRenderPass, Record cmd_end]"

definition submitCommandBuffer :: "Window \<Rightarrow> result" where
  "submitCommandBuffer =
     device_call [QueueSubmit [imageAvailableSemaphore] [eColorAttachmentOutput] 1
                    [renderFinishedSemaphore] False]"

text \<open>
  Modelled from the spec: the operators \<^verbatim>\<open><<\<close> and \<^verbatim>\<open>>>\<close> between an extent and a
  preferred size are declared with the interval type, which is not among the sources.
  By section 4.5 they tell that the extent does not satisfy the preferred size: some
  coordinate is below the minimum, respectively above the maximum.
\<close>

definition extent_below :: "int \<times> int \<Rightarrow> (int \<times> int) \<times> (int \<times> int) \<Rightarrow> bool" where
  "extent_below e p = (fst e < fst (fst p) \<or> snd e < snd (fst p))"

definition extent_above :: "int \<times> int \<Rightarrow> (int \<times> int) \<times> (int \<times> int) \<Rightarrow> bool" where
  "extent_above e p = (fst e > fst (snd p) \<or> snd e > snd (snd p))"

text \<open>
  The first part of the frame, from the bail-out test of \<^verbatim>\<open>render\<close> to the test of
  \<^verbatim>\<open>need_redraw\<close>: constraints, the size check, layout. It returns \<^verbatim>\<open>need_redraw\<close>.
  Each \<^verbatim>\<open>exchange(false)\<close> reads a flag and clears it.
\<close>

definition update_window :: "Collaborators \<Rightarrow> Window \<Rightarrow> bool \<times> Window" where
  "update_window c w =
     (let need_reconstrain = request_setting_change w;
          w1 = w\<lparr>request_setting_change := False\<rparr>;
          constraints_have_changed = update_constraints c need_reconstrain;
          preferred_size = preferred_size_render c;
          resize_requested = requestResize w1;
          w2 = w1\<lparr>requestResize := False\<rparr>;
          w3 = (if resize_requested \<or> extent_below (currentWindowExtent w2) preferred_size
                then w2\<lparr>currentWindowExtent := fst preferred_size,
                        calls := calls w2 @ [SetWindowSize (fst preferred_size)]\<rparr>
                else if extent_above (currentWindowExtent w2) preferred_size
                then w2\<lparr>currentWindowExtent := snd preferred_size,
                        calls := calls w2 @ [SetWindowSize (snd preferred_size)]\<rparr>
                else w2);
          w4 = w3\<lparr>calls := calls w3 @ [SetLayoutParameters (currentWindowExtent w3)]\<rparr>;
          need_layout = (requestLayout w4 \<or> constraints_have_changed);
          w5 = w4\<lparr>requestLayout := False\<rparr>;
          need_redraw = (update_layout c need_layout \<or> requestRedraw w5);
          w6 = w5\<lparr>requestRedraw := False\<rparr>
      in (need_redraw, w6))"

text \<open>
  The rest of the frame, after an image was acquired. \<^verbatim>\<open>swapchainFramebuffers.at\<close>
  throws beyond the end of the vector.
\<close>

definition draw_frame :: "Collaborators \<Rightarrow> 32 word \<Rightarrow> Window \<Rightarrow> result" where
  "draw_frame c frameBufferIndex w =
     (if length (swapchainFramebuffers w) \<le> unat frameBufferIndex then Inl (out_of_range, w)
      else
        (let frameBuffer = swapchainFramebuffers w ! unat frameBufferIndex
         in seq [device_call [WaitForFences (- 1)],
                 device_call [ResetFences],
                 call [WidgetDraw],
                 fillCommandBuffer frameBuffer,
                 submitCommandBuffer,
                 device_call [QueueSubmit [] [] 0 [] True],
                 presentImageToQueue c frameBufferIndex renderFinishedSemaphore,
                 teardown] w))"

definition render :: "Collaborators \<Rightarrow> Window \<Rightarrow> result" where
  "render c w =
     (case teardown w of
        Inl e \<Rightarrow> Inl e
      | Inr w1 \<Rightarrow>
         (case build c w1 of
            Inl e \<Rightarrow> Inl e
          | Inr w2 \<Rightarrow>
             (if state w2 \<noteq> ReadyToRender then Inr w2
              else
               (let need_redraw = fst (update_window c w2);
                    w3 = snd (update_window c w2)
                in if \<not> need_redraw then Inr w3
                   else
                    (case acquireNextImageFromSwapchain c w3 of
                       Inl e \<Rightarrow> Inl e
                     | Inr (None, w4) \<Rightarrow> Inr w4
                     | Inr (Some frameBufferIndex, w4) \<Rightarrow> draw_frame c frameBufferIndex w4)))))"

section \<open>Vocabulary of the properties\<close>

text \<open>What a call of a function appended to the window's log.\<close>

definition new_calls :: "Window \<Rightarrow> Window \<Rightarrow> Call list" where
  "new_calls w w' = drop (length (calls w)) (calls w')"

text \<open>
  The calls by which \<^verbatim>\<open>teardown\<close> releases what hangs on the swapchain, in program
  order: the wait of \<^verbatim>\<open>waitIdle\<close>, the notification of the pipelines, then
  \<^verbatim>\<open>teardownSemaphores\<close>, \<^verbatim>\<open>teardownCommandBuffers\<close>, \<^verbatim>\<open>teardownFramebuffers\<close>,
  \<^verbatim>\<open>teardownRenderPasses\<close> and \<^verbatim>\<open>teardownSwapchain\<close>.
\<close>

definition swapchain_release :: "Window \<Rightarrow> Call list" where
  "swapchain_release w =
     (if renderFinishedFence w then [WaitForFences (- 1)] else []) @ [DeviceWaitIdle] @
     map (\<lambda>p. Notify p teardownForSwapchainLost) all_pipelines_reversed @
     [Destroy (semaphore renderFinishedSemaphore), Destroy (semaphore imageAvailableSemaphore),
      Destroy fence, Destroy commandBuffer] @
     map (\<lambda>fb. Destroy (swapchainFramebuffer fb)) (swapchainFramebuffers w) @
     map (\<lambda>v. Destroy (swapchainImageView v)) (swapchainImageViews w) @
     [Destroy depthImageView, Destroy colorImageView, Destroy renderPass,
      Destroy swapchain, Destroy depthImage, Destroy colorImage]"

text \<open>
  Concrete windows on which the theorems below are exercised: a new window without a
  device, and a window with a device whose swapchain stage was built for two images,
  put in a given state.
\<close>

definition example_window :: Window where
  "example_window =
     \<lparr>state = NoDevice, device = None, nrSwapchainImages = 0,
      swapchainImageExtent = \<lparr>width = 0, height = 0\<rparr>,
      swapchainFramebuffers = [], swapchainImageViews = [],
      renderFinishedFence = False, currentWindowExtent = (0, 0),
      requestResize = False, requestLayout = False, requestRedraw = False,
      request_setting_change = False, calls = []\<rparr>"

definition built_window :: "State \<Rightarrow> Window" where
  "built_window s =
     example_window\<lparr>state := s, device := Some 0, nrSwapchainImages := 2,
       swapchainImageExtent := \<lparr>width = 800, height = 600\<rparr>,
       swapchainFramebuffers := [10, 11], swapchainImageViews := [10, 11],
       renderFinishedFence := True, currentWindowExtent := (800, 600)\<rparr>"

text \<open>
  \<^verbatim>\<open>build\<close> gets as far as reading the surface extent: a device is attached, and the
  window either waits for a swapchain or will get its surface accepted on the way.
\<close>

definition reaches_swapchain_stage :: "Collaborators \<Rightarrow> Window \<Rightarrow> bool" where
  "reaches_swapchain_stage c w =
     (device w \<noteq> None \<and>
      (state w = NoSwapchain \<or> (state w = NoSurface \<or> state w = NoDevice) \<and> 0 < score c))"

text \<open>The two tests of \<^verbatim>\<open>readSurfaceExtent\<close> against the widget's preferred size.\<close>

definition extent_out_of_range :: "Collaborators \<Rightarrow> Extent2D \<Rightarrow> bool" where
  "extent_out_of_range c e =
     (narrow_cast_int (width e) < fst (fst (preferred_size_build c)) \<or>
      narrow_cast_int (height e) < snd (fst (preferred_size_build c)) \<or>
      narrow_cast_int (width e) > fst (snd (preferred_size_build c)) \<or>
      narrow_cast_int (height e) > snd (snd (preferred_size_build c)))"

text \<open>
  The calls that create what hangs on a swapchain: the swapchain, the attachment
  images, image views, render pass, framebuffers, command buffer, semaphores, fence.
\<close>

fun swapchain_resource_creation :: "Call \<Rightarrow> bool" where
  "swapchain_resource_creation (CreateSwapchainKHR n e) = True"
| "swapchain_resource_creation (CreateImage i e) = True"
| "swapchain_resource_creation (CreateFramebuffer i e) = True"
| "swapchain_resource_creation (CreateFence s) = True"
| "swapchain_resource_creation (Create obj) = (obj \<noteq> surface)"
| "swapchain_resource_creation x = False"

text \<open>What \<^verbatim>\<open>build\<close> calls before its third block, from the state it was entered with.\<close>

definition surface_stage_calls :: "State \<Rightarrow> Call list" where
  "surface_stage_calls s =
     (if s = NoDevice then map (\<lambda>p. Notify p buildForNewDevice) all_pipelines else []) @
     (if s = NoDevice \<or> s = NoSurface
      then Create surface # map (\<lambda>p. Notify p buildForNewSurface) all_pipelines else [])"

text \<open>
  What \<^verbatim>\<open>build\<close> calls after the extent was checked, and that part of \<^verbatim>\<open>build\<close>
  as a function.
\<close>

definition swapchain_resources :: "Collaborators \<Rightarrow> Extent2D \<Rightarrow> Call list" where
  "swapchain_resources c e =
     [Create renderPass, Create depthImageView, Create colorImageView] @
     concat (map (\<lambda>image. [Create (swapchainImageView image), CreateFramebuffer image e])
               (getSwapchainImagesKHR c)) @
     [Create commandBuffer,
      Create (semaphore imageAvailableSemaphore), Create (semaphore renderFinishedSemaphore),
      CreateFence True,
      Notify flatPipeline (buildForNewSwapchain 0 e),
      Notify boxPipeline (buildForNewSwapchain 1 e),
      Notify imagePipeline (buildForNewSwapchain 2 e),
      Notify SDFPipeline (buildForNewSwapchain 3 e),
      Notify toneMapperPipeline (buildForNewSwapchain 4 e),
      WindowChangedSize e]"

definition build_resources :: "Collaborators \<Rightarrow> Window \<Rightarrow> result" where
  "build_resources c =
     seq [buildRenderPasses, buildFramebuffers c, buildCommandBuffers, buildSemaphores,
        (\<lambda>w. call (map (\<lambda>(p, i). Notify p (buildForNewSwapchain i (swapchainImageExtent w)))
                      (zip all_pipelines [0, 1, 2, 3, 4])) w),
        (\<lambda>w. call [WindowChangedSize (swapchainImageExtent w)] w),
        (\<lambda>w. Inr (w\<lparr>state := ReadyToRender\<rparr>))]"

text \<open>
  One call after the other, and the state a call ends in (\<open>None\<close> when it throws).
\<close>

definition then_result :: "result \<Rightarrow> (Window \<Rightarrow> result) \<Rightarrow> result" where
  "then_result r f = (case r of Inl e \<Rightarrow> Inl e | Inr w \<Rightarrow> f w)"

definition result_state :: "result \<Rightarrow> State option" where
  "result_state r = (case r of Inl e \<Rightarrow> None | Inr w \<Rightarrow> Some (state w))"

text \<open>
  A window with a device and nothing built, and the conditions of the specification's
  scenario: an 800 by 600 surface that allows two to eight images.
\<close>

definition bare_window :: "State \<Rightarrow> Window" where
  "bare_window s = example_window\<lparr>state := s, device := Some 0\<rparr>"

definition example_conditions :: Collaborators where
  "example_conditions =
     \<lparr>score = 1,
      surfaceCapabilities_read =
        Returns \<lparr>minImageCount = 2, maxImageCount = 8, currentExtent = \<lparr>width = 800, height = 600\<rparr>\<rparr>,
      surfaceCapabilities_check =
        Returns \<lparr>minImageCount = 2, maxImageCount = 8, currentExtent = \<lparr>width = 800, height = 600\<rparr>\<rparr>,
      defaultNumberOfSwapchainImages = 3,
      createSwapchainKHR = eSuccess,
      getSwapchainImagesKHR = [10, 11, 12],
      preferred_size_build = ((100, 100), (4000, 4000)),
      update_constraints = (\<lambda>need_reconstrain. False),
      preferred_size_render = ((100, 100), (4000, 4000)),
      update_layout = (\<lambda>need_layout. True),
      acquireNextImageKHR = (eSuccess, 1),
      presentKHR = Returns eSuccess\<rparr>"

text \<open>The window a call leaves behind, whether it returns or throws.\<close>

definition result_window :: "result \<Rightarrow> Window" where
  "result_window r = (case r of Inl x \<Rightarrow> snd x | Inr w \<Rightarrow> w)"


text \<open>
  The calls of the frame itself: acquiring the image, waiting for and resetting the
  fence, recording the command buffer, submitting to the queue, presenting.
\<close>

fun frame_work :: "Call \<Rightarrow> bool" where
  "frame_work (AcquireNextImageKHR t s) = True"
| "frame_work (WaitForFences t) = True"
| "frame_work ResetFences = True"
| "frame_work (Record cmd) = True"
| "frame_work (QueueSubmit ws st n sg f) = True"
| "frame_work (PresentKHR ws i) = True"
| "frame_work x = False"

text \<open>
  What the size check of \<^verbatim>\<open>render\<close> asks of the operating system, and the value of
  \<^verbatim>\<open>need_redraw\<close>, both in terms of the window that comes out of \<^verbatim>\<open>build\<close>.
\<close>

definition size_check_calls :: "Collaborators \<Rightarrow> Window \<Rightarrow> Call list" where
  "size_check_calls c w =
     (if requestResize w \<or> extent_below (currentWindowExtent w) (preferred_size_render c)
      then [SetWindowSize (fst (preferred_size_render c))]
      else if extent_above (currentWindowExtent w) (preferred_size_render c)
      then [SetWindowSize (snd (preferred_size_render c))]
      else [])"

definition needs_redraw :: "Collaborators \<Rightarrow> Window \<Rightarrow> bool" where
  "needs_redraw c w =
     (update_layout c (requestLayout w \<or> update_constraints c (request_setting_change w)) \<or>
      requestRedraw w)"

text \<open>The calls of \<^verbatim>\<open>render\<close> from the fence wait to the presentation.\<close>

definition frame_calls :: "nat \<Rightarrow> 32 word \<Rightarrow> Call list" where
  "frame_calls frameBuffer frameBufferIndex =
     [WaitForFences (- 1), ResetFences, WidgetDraw,
      Record cmd_reset, Record cmd_begin, Record (beginRenderPass frameBuffer),
      Record (drawInCommandBuffer flatPipeline),
      Record nextSubpass, Record (drawInCommandBuffer boxPipeline),
      Record nextSubpass, Record (drawInCommandBuffer imagePipeline),
      Record nextSubpass, Record (drawInCommandBuffer SDFPipeline),
      Record nextSubpass, Record (drawInCommandBuffer toneMapperPipeline),
      Record endRenderPass, Record cmd_end,
      QueueSubmit [imageAvailableSemaphore] [eColorAttachmentOutput] 1 [renderFinishedSemaphore] False,
      QueueSubmit [] [] 0 [] True,
      PresentKHR [renderFinishedSemaphore] frameBufferIndex]"

text \<open>
  The render-finished fence as Vulkan keeps it, followed along the window's log:
  there is no fence, or it is signaled, or unsignaled with nothing submitted that
  would signal it, or unsignaled with a submission pending that signals it when the
  queue has finished. A wait turns pending into signaled; on an unsignaled fence
  without a pending submission it would never return.
\<close>

datatype fence_state = no_fence | signaled | unsignaled | pending

fun fence_step :: "fence_state \<Rightarrow> Call \<Rightarrow> fence_state" where
  "fence_step s (CreateFence sig) = (if sig then signaled else unsignaled)"
| "fence_step s (Destroy obj) = (if obj = fence then no_fence else s)"
| "fence_step s (WaitForFences t) = (if s = pending then signaled else s)"
| "fence_step s ResetFences = (if s = no_fence then no_fence else unsignaled)"
| "fence_step s (QueueSubmit ws st n sg f) = (if f \<and> s \<noteq> no_fence then pending else s)"
| "fence_step s x = s"

definition fence_after :: "Call list \<Rightarrow> fence_state" where
  "fence_after cs = foldl fence_step no_fence cs"

text \<open>In \<open>ReadyToRender\<close> the fence is signaled or about to be.\<close>

definition fence_ready :: "Window \<Rightarrow> bool" where
  "fence_ready w =
     (state w = ReadyToRender \<longrightarrow>
        fence_after (calls w) = signaled \<or> fence_after (calls w) = pending)"

text \<open>The concrete windows and conditions, unfolded together.\<close>

lemmas example_defs = example_window_def bare_window_def example_conditions_def built_window_def

section \<open>Teardown\<close>

lemma seq_device_calls:
  "device w \<noteq> None \<Longrightarrow>
   seq (map (\<lambda>x. device_call [f x]) xs) w = Inr (w\<lparr>calls := calls w @ map f xs\<rparr>)"
  by (induction xs arbitrary: w) (auto simp: device_call_def call_def)

lemma waitIdle_ok:
  "device w \<noteq> None \<Longrightarrow>
   waitIdle w = Inr (w\<lparr>calls := calls w @
      (if renderFinishedFence w then [WaitForFences (- 1)] else []) @ [DeviceWaitIdle]\<rparr>)"
  by (auto simp add: waitIdle_def device_call_def call_def)

lemma teardownSemaphores_ok:
  "device w \<noteq> None \<Longrightarrow>
   teardownSemaphores w = Inr (w\<lparr>calls := calls w @
      [Destroy (semaphore renderFinishedSemaphore), Destroy (semaphore imageAvailableSemaphore),
       Destroy fence]\<rparr>)"
  by (simp add: teardownSemaphores_def device_call_def call_def)

lemma teardownFramebuffers_ok:
  "device w \<noteq> None \<Longrightarrow>
   teardownFramebuffers w = Inr (w\<lparr>swapchainFramebuffers := [], swapchainImageViews := [],
      calls := calls w @ map (\<lambda>fb. Destroy (swapchainFramebuffer fb)) (swapchainFramebuffers w) @
        map (\<lambda>v. Destroy (swapchainImageView v)) (swapchainImageViews w) @
        [Destroy depthImageView, Destroy colorImageView]\<rparr>)"
  by (simp add: teardownFramebuffers_def seq_device_calls device_call_def call_def)

lemma teardownSwapchain_ok:
  "device w \<noteq> None \<Longrightarrow>
   teardownSwapchain w = Inr (w\<lparr>calls := calls w @
      [Destroy swapchain, Destroy depthImage, Destroy colorImage]\<rparr>)"
  by (simp add: teardownSwapchain_def device_call_def call_def)

lemmas teardown_parts =
  teardown_def State_ge_def waitIdle_ok teardownSemaphores_ok teardownFramebuffers_ok
  teardownSwapchain_ok teardownCommandBuffers_def teardownRenderPasses_def device_call_def call_def
  swapchain_release_def teardownSurface_def teardownDevice_def

lemma teardown_SwapchainLost:
  "device w \<noteq> None \<Longrightarrow> state w = SwapchainLost \<Longrightarrow>
   teardown w = Inr (w\<lparr>state := NoSwapchain, swapchainFramebuffers := [], swapchainImageViews := [],
      calls := calls w @ swapchain_release w\<rparr>)"
  by (simp add: teardown_parts)

lemma teardown_SurfaceLost:
  "device w \<noteq> None \<Longrightarrow> state w = SurfaceLost \<Longrightarrow>
   teardown w = Inr (w\<lparr>state := NoSurface, swapchainFramebuffers := [], swapchainImageViews := [],
      calls := calls w @ swapchain_release w @
         map (\<lambda>p. Notify p teardownForSurfaceLost) all_pipelines_reversed @ [Destroy surface]\<rparr>)"
  by (simp add: teardown_parts)

lemma teardown_DeviceLost:
  "device w \<noteq> None \<Longrightarrow> state w = DeviceLost \<Longrightarrow>
   teardown w = Inr (w\<lparr>state := NoDevice, device := None, swapchainFramebuffers := [], swapchainImageViews := [],
      calls := calls w @ swapchain_release w @
         map (\<lambda>p. Notify p teardownForSurfaceLost) all_pipelines_reversed @ [Destroy surface] @
         map (\<lambda>p. Notify p teardownForDeviceLost) all_pipelines_reversed\<rparr>)"
  by (simp add: teardown_parts)

lemma teardown_WindowLost:
  "device w \<noteq> None \<Longrightarrow> state w = WindowLost \<Longrightarrow>
   teardown w = Inr (w\<lparr>state := NoWindow, device := None, swapchainFramebuffers := [], swapchainImageViews := [],
      calls := calls w @ swapchain_release w @
         map (\<lambda>p. Notify p teardownForSurfaceLost) all_pipelines_reversed @ [Destroy surface] @
         map (\<lambda>p. Notify p teardownForDeviceLost) all_pipelines_reversed @
         map (\<lambda>p. Notify p teardownForWindowLost) all_pipelines_reversed @ [ClosingWindow]\<rparr>)"
  by (simp add: teardown_parts)

lemma teardown_below:
  "\<not> State_ge (state w) SwapchainLost \<Longrightarrow> teardown w = Inr w"
  by (simp add: teardown_def)

lemma teardown_no_device:
  "State_ge (state w) SwapchainLost \<Longrightarrow> device w = None \<Longrightarrow>
   teardown w = Inl (assertion_failure, w)"
  by (simp add: teardown_def waitIdle_def Let_def)

lemma State_ge_SwapchainLost_cases:
  "State_ge s SwapchainLost \<longleftrightarrow> s = SwapchainLost \<or> s = SurfaceLost \<or> s = DeviceLost \<or> s = WindowLost"
  by (cases s) (simp_all add: State_ge_def)










section \<open>Build\<close>

lemma device_call_ok:
  "device w \<noteq> None \<Longrightarrow> device_call cs w = Inr (w\<lparr>calls := calls w @ cs\<rparr>)"
  by (simp add: device_call_def call_def)

lemma build_reaches:
  assumes "reaches_swapchain_stage c w"
  shows "build c w =
    build_NoSwapchain c (w\<lparr>calls := calls w @ surface_stage_calls (state w), state := NoSwapchain\<rparr>)"
proof -
  from assms have d: "device w \<noteq> None" by (simp add: reaches_swapchain_stage_def)
  from assms consider "state w = NoSwapchain" | "state w = NoSurface" "0 < score c"
    | "state w = NoDevice" "0 < score c"
    by (auto simp: reaches_swapchain_stage_def)
  then show ?thesis
  proof cases
    case 1
    have eq: "w\<lparr>state := NoSwapchain\<rparr> = w" using 1 by (cases w) simp
    show ?thesis by (simp add: build_def surface_stage_calls_def 1 eq)
  next
    case 2
    then show ?thesis using d
      by (auto simp add: build_def surface_stage_calls_def buildSurface_def Let_def)
  next
    case 3
    then show ?thesis using d
      by (auto simp add: build_def surface_stage_calls_def buildSurface_def Let_def)
  qed
qed

lemma framebuffer_loop:
  "device w \<noteq> None \<Longrightarrow>
   seq (concat (map (\<lambda>image.
            [device_call [Create (swapchainImageView image)],
             (\<lambda>w. Inr (w\<lparr>swapchainImageViews := swapchainImageViews w @ [image]\<rparr>)),
             (\<lambda>w. device_call [CreateFramebuffer image (swapchainImageExtent w)] w),
             (\<lambda>w. Inr (w\<lparr>swapchainFramebuffers := swapchainFramebuffers w @ [image]\<rparr>))]) imgs)) w
   = Inr (w\<lparr>swapchainImageViews := swapchainImageViews w @ imgs,
           swapchainFramebuffers := swapchainFramebuffers w @ imgs,
           calls := calls w @ concat (map (\<lambda>image. [Create (swapchainImageView image),
                       CreateFramebuffer image (swapchainImageExtent w)]) imgs)\<rparr>)"
  by (induction imgs arbitrary: w) (simp_all add: device_call_ok)

lemma buildFramebuffers_ok:
  "device w \<noteq> None \<Longrightarrow>
   buildFramebuffers c w =
     Inr (w\<lparr>swapchainImageViews := swapchainImageViews w @ getSwapchainImagesKHR c,
           swapchainFramebuffers := swapchainFramebuffers w @ getSwapchainImagesKHR c,
           calls := calls w @ [Create depthImageView, Create colorImageView] @
              concat (map (\<lambda>image. [Create (swapchainImageView image),
                       CreateFramebuffer image (swapchainImageExtent w)]) (getSwapchainImagesKHR c))\<rparr>)"
  by (simp add: buildFramebuffers_def framebuffer_loop device_call_ok)

lemma buildSemaphores_ok:
  "device w \<noteq> None \<Longrightarrow>
   buildSemaphores w =
     Inr (w\<lparr>calls := calls w @ [Create (semaphore imageAvailableSemaphore),
              Create (semaphore renderFinishedSemaphore), CreateFence True],
           renderFinishedFence := True\<rparr>)"
  by (simp add: buildSemaphores_def device_call_ok)

lemma build_resources_ok:
  "device w \<noteq> None \<Longrightarrow>
   build_resources c w
   = Inr (w\<lparr>swapchainImageViews := swapchainImageViews w @ getSwapchainImagesKHR c,
           swapchainFramebuffers := swapchainFramebuffers w @ getSwapchainImagesKHR c,
           renderFinishedFence := True,
           calls := calls w @ swapchain_resources c (swapchainImageExtent w),
           state := ReadyToRender\<rparr>)"
  by (simp add: build_resources_def buildFramebuffers_ok buildSemaphores_ok buildRenderPasses_def
      buildCommandBuffers_def device_call_ok call_def swapchain_resources_def all_pipelines_def)

lemma getImageCountAndExtent_device:
  "getImageCountAndExtent c a w = Inr r \<Longrightarrow> device w \<noteq> None"
  by (cases "device w") (simp_all add: getImageCountAndExtent_def)

lemma getImageCountAndExtent_indep:
  "device w \<noteq> None \<Longrightarrow> device v \<noteq> None \<Longrightarrow>
   getImageCountAndExtent c a w = getImageCountAndExtent c a v"
  by (auto simp: getImageCountAndExtent_def)

lemma getImageCountAndExtent_no_device:
  "device w = None \<Longrightarrow> getImageCountAndExtent c a w = Inl assertion_failure"
  by (simp add: getImageCountAndExtent_def)

lemma readSurfaceExtent_read:
  "getImageCountAndExtent c (surfaceCapabilities_read c) w = Inr (n, e) \<Longrightarrow>
   readSurfaceExtent c w =
     Inr (\<not> extent_out_of_range c e, w\<lparr>nrSwapchainImages := n, swapchainImageExtent := e\<rparr>)"
  by (auto simp: readSurfaceExtent_def extent_out_of_range_def Let_def)

lemma readSurfaceExtent_lost:
  "getImageCountAndExtent c (surfaceCapabilities_read c) w = Inl (vk_SystemError eErrorSurfaceLostKHR) \<Longrightarrow>
   readSurfaceExtent c w = Inr (False, w\<lparr>state := SurfaceLost\<rparr>)"
  by (simp add: readSurfaceExtent_def)

lemma readSurfaceExtent_throws:
  "getImageCountAndExtent c (surfaceCapabilities_read c) w = Inl x \<Longrightarrow>
   x \<noteq> vk_SystemError eErrorSurfaceLostKHR \<Longrightarrow>
   readSurfaceExtent c w = Inl (x, w)"
  by (simp add: readSurfaceExtent_def)

lemma checkSurfaceExtent_read:
  "getImageCountAndExtent c (surfaceCapabilities_check c) w = Inr (n, e) \<Longrightarrow>
   checkSurfaceExtent c w = Inr (n = nrSwapchainImages w \<and> e = swapchainImageExtent w, w)"
  by (simp add: checkSurfaceExtent_def)

lemma checkSurfaceExtent_lost:
  "getImageCountAndExtent c (surfaceCapabilities_check c) w = Inl (vk_SystemError eErrorSurfaceLostKHR) \<Longrightarrow>
   checkSurfaceExtent c w = Inr (False, w\<lparr>state := SurfaceLost\<rparr>)"
  by (simp add: checkSurfaceExtent_def)

lemma checkSurfaceExtent_throws:
  "getImageCountAndExtent c (surfaceCapabilities_check c) w = Inl x \<Longrightarrow>
   x \<noteq> vk_SystemError eErrorSurfaceLostKHR \<Longrightarrow>
   checkSurfaceExtent c w = Inl (x, w)"
  by (simp add: checkSurfaceExtent_def)

lemma stage_no_device:
  "state w = NoSwapchain \<Longrightarrow> device w = None \<Longrightarrow>
   build_NoSwapchain c w = Inl (assertion_failure, w)"
  by (simp add: build_NoSwapchain_def readSurfaceExtent_def getImageCountAndExtent_no_device)

lemma stage_read_lost:
  "state w = NoSwapchain \<Longrightarrow>
   getImageCountAndExtent c (surfaceCapabilities_read c) w = Inl (vk_SystemError eErrorSurfaceLostKHR) \<Longrightarrow>
   build_NoSwapchain c w = Inr w"
proof -
  assume s: "state w = NoSwapchain"
  then have eq: "w\<lparr>state := NoSwapchain\<rparr> = w" by (cases w) simp
  assume "getImageCountAndExtent c (surfaceCapabilities_read c) w = Inl (vk_SystemError eErrorSurfaceLostKHR)"
  then show ?thesis
    by (simp add: build_NoSwapchain_def readSurfaceExtent_lost s eq)
qed

lemma stage_read_throws:
  "state w = NoSwapchain \<Longrightarrow>
   getImageCountAndExtent c (surfaceCapabilities_read c) w = Inl x \<Longrightarrow>
   x \<noteq> vk_SystemError eErrorSurfaceLostKHR \<Longrightarrow>
   build_NoSwapchain c w = Inl (x, w)"
  by (simp add: build_NoSwapchain_def readSurfaceExtent_throws)

lemma stage_out_of_range:
  "state w = NoSwapchain \<Longrightarrow>
   getImageCountAndExtent c (surfaceCapabilities_read c) w = Inr (n, e) \<Longrightarrow>
   extent_out_of_range c e \<Longrightarrow>
   build_NoSwapchain c w =
     Inr (w\<lparr>nrSwapchainImages := n, swapchainImageExtent := e, state := NoSwapchain\<rparr>)"
  by (simp add: build_NoSwapchain_def readSurfaceExtent_read)

lemma stage_create_lost:
  "state w = NoSwapchain \<Longrightarrow>
   getImageCountAndExtent c (surfaceCapabilities_read c) w = Inr (n, e) \<Longrightarrow>
   \<not> extent_out_of_range c e \<Longrightarrow>
   createSwapchainKHR c = eErrorSurfaceLostKHR \<Longrightarrow>
   build_NoSwapchain c w =
     Inr (w\<lparr>nrSwapchainImages := n, swapchainImageExtent := e,
           calls := calls w @ [CreateSwapchainKHR n e], state := SurfaceLost\<rparr>)"
  by (frule getImageCountAndExtent_device)
     (auto simp add: build_NoSwapchain_def readSurfaceExtent_read buildSwapchain_def Let_def)

lemma stage_create_throws:
  "state w = NoSwapchain \<Longrightarrow>
   getImageCountAndExtent c (surfaceCapabilities_read c) w = Inr (n, e) \<Longrightarrow>
   \<not> extent_out_of_range c e \<Longrightarrow>
   createSwapchainKHR c \<noteq> eSuccess \<Longrightarrow> createSwapchainKHR c \<noteq> eErrorSurfaceLostKHR \<Longrightarrow>
   build_NoSwapchain c w =
     Inl (gui_error ''Unknown result from createSwapchainKHR()'' (createSwapchainKHR c),
          w\<lparr>nrSwapchainImages := n, swapchainImageExtent := e,
            calls := calls w @ [CreateSwapchainKHR n e]\<rparr>)"
  by (frule getImageCountAndExtent_device)
     (auto simp add: build_NoSwapchain_def readSurfaceExtent_read buildSwapchain_def Let_def)

lemma stage_created:
  "state w = NoSwapchain \<Longrightarrow>
   getImageCountAndExtent c (surfaceCapabilities_read c) w = Inr (n, e) \<Longrightarrow>
   \<not> extent_out_of_range c e \<Longrightarrow>
   createSwapchainKHR c = eSuccess \<Longrightarrow>
   build_NoSwapchain c w =
     (case checkSurfaceExtent c
             (w\<lparr>nrSwapchainImages := n, swapchainImageExtent := e,
                calls := calls w @ [CreateSwapchainKHR n e, CreateImage depthImage e,
                                    CreateImage colorImage e]\<rparr>) of
        Inl x \<Rightarrow> Inl x
      | Inr (same, w3) \<Rightarrow>
          if \<not> same then teardownSwapchain w3
          else build_resources c w3)"
  unfolding build_resources_def
  by (frule getImageCountAndExtent_device)
     (auto simp add: build_NoSwapchain_def readSurfaceExtent_read buildSwapchain_def Let_def)

lemma stage_check_changed:
  assumes "state w = NoSwapchain"
    and "getImageCountAndExtent c (surfaceCapabilities_read c) w = Inr (n, e)"
    and "\<not> extent_out_of_range c e"
    and "createSwapchainKHR c = eSuccess"
    and "getImageCountAndExtent c (surfaceCapabilities_check c) w = Inr (n', e')"
    and "n' \<noteq> n \<or> e' \<noteq> e"
  shows "build_NoSwapchain c w =
     Inr (w\<lparr>nrSwapchainImages := n, swapchainImageExtent := e,
           calls := calls w @ [CreateSwapchainKHR n e, CreateImage depthImage e,
              CreateImage colorImage e, Destroy swapchain, Destroy depthImage, Destroy colorImage]\<rparr>)"
proof -
  let ?w2 = "w\<lparr>nrSwapchainImages := n, swapchainImageExtent := e,
                calls := calls w @ [CreateSwapchainKHR n e, CreateImage depthImage e,
                                    CreateImage colorImage e]\<rparr>"
  have d: "device w \<noteq> None" using assms(2) by (rule getImageCountAndExtent_device)
  then have d2: "device ?w2 \<noteq> None" by simp
  have "getImageCountAndExtent c (surfaceCapabilities_check c) ?w2 = Inr (n', e')"
    using getImageCountAndExtent_indep [OF d2 d] assms(5) by simp
  then have "checkSurfaceExtent c ?w2 = Inr (False, ?w2)"
    using assms(6) by (auto simp add: checkSurfaceExtent_read)
  then show ?thesis
    using d by (simp add: stage_created [OF assms(1-4)] teardownSwapchain_ok)
qed

lemma stage_check_lost:
  assumes "state w = NoSwapchain"
    and "getImageCountAndExtent c (surfaceCapabilities_read c) w = Inr (n, e)"
    and "\<not> extent_out_of_range c e"
    and "createSwapchainKHR c = eSuccess"
    and "getImageCountAndExtent c (surfaceCapabilities_check c) w = Inl (vk_SystemError eErrorSurfaceLostKHR)"
  shows "build_NoSwapchain c w =
     Inr (w\<lparr>nrSwapchainImages := n, swapchainImageExtent := e,
           calls := calls w @ [CreateSwapchainKHR n e, CreateImage depthImage e,
              CreateImage colorImage e, Destroy swapchain, Destroy depthImage, Destroy colorImage],
           state := SurfaceLost\<rparr>)"
proof -
  let ?w2 = "w\<lparr>nrSwapchainImages := n, swapchainImageExtent := e,
                calls := calls w @ [CreateSwapchainKHR n e, CreateImage depthImage e,
                                    CreateImage colorImage e]\<rparr>"
  have d: "device w \<noteq> None" using assms(2) by (rule getImageCountAndExtent_device)
  then have d2: "device ?w2 \<noteq> None" by simp
  have "getImageCountAndExtent c (surfaceCapabilities_check c) ?w2 = Inl (vk_SystemError eErrorSurfaceLostKHR)"
    using getImageCountAndExtent_indep [OF d2 d] assms(5) by simp
  then have "checkSurfaceExtent c ?w2 = Inr (False, ?w2\<lparr>state := SurfaceLost\<rparr>)"
    by (rule checkSurfaceExtent_lost)
  then show ?thesis
    using d by (simp add: stage_created [OF assms(1-4)] teardownSwapchain_ok)
qed

lemma stage_check_throws:
  assumes "state w = NoSwapchain"
    and "getImageCountAndExtent c (surfaceCapabilities_read c) w = Inr (n, e)"
    and "\<not> extent_out_of_range c e"
    and "createSwapchainKHR c = eSuccess"
    and "getImageCountAndExtent c (surfaceCapabilities_check c) w = Inl x"
    and "x \<noteq> vk_SystemError eErrorSurfaceLostKHR"
  shows "\<exists>w'. build_NoSwapchain c w = Inl (x, w')"
proof -
  let ?w2 = "w\<lparr>nrSwapchainImages := n, swapchainImageExtent := e,
                calls := calls w @ [CreateSwapchainKHR n e, CreateImage depthImage e,
                                    CreateImage colorImage e]\<rparr>"
  have d: "device w \<noteq> None" using assms(2) by (rule getImageCountAndExtent_device)
  then have d2: "device ?w2 \<noteq> None" by simp
  have "getImageCountAndExtent c (surfaceCapabilities_check c) ?w2 = Inl x"
    using getImageCountAndExtent_indep [OF d2 d] assms(5) by simp
  then have "checkSurfaceExtent c ?w2 = Inl (x, ?w2)"
    using assms(6) by (rule checkSurfaceExtent_throws)
  then show ?thesis
    by (simp add: stage_created [OF assms(1-4)])
qed

lemma stage_check_throws_window:
  assumes "state w = NoSwapchain"
    and "getImageCountAndExtent c (surfaceCapabilities_read c) w = Inr (n, e)"
    and "\<not> extent_out_of_range c e"
    and "createSwapchainKHR c = eSuccess"
    and "getImageCountAndExtent c (surfaceCapabilities_check c) w = Inl x"
    and "x \<noteq> vk_SystemError eErrorSurfaceLostKHR"
  shows "build_NoSwapchain c w =
     Inl (x, w\<lparr>nrSwapchainImages := n, swapchainImageExtent := e,
                calls := calls w @ [CreateSwapchainKHR n e, CreateImage depthImage e,
                                    CreateImage colorImage e]\<rparr>)"
proof -
  let ?w2 = "w\<lparr>nrSwapchainImages := n, swapchainImageExtent := e,
                calls := calls w @ [CreateSwapchainKHR n e, CreateImage depthImage e,
                                    CreateImage colorImage e]\<rparr>"
  have d: "device w \<noteq> None" using assms(2) by (rule getImageCountAndExtent_device)
  then have d2: "device ?w2 \<noteq> None" by simp
  have "getImageCountAndExtent c (surfaceCapabilities_check c) ?w2 = Inl x"
    using getImageCountAndExtent_indep [OF d2 d] assms(5) by simp
  then have "checkSurfaceExtent c ?w2 = Inl (x, ?w2)"
    using assms(6) by (rule checkSurfaceExtent_throws)
  then show ?thesis
    by (simp add: stage_created [OF assms(1-4)])
qed

lemma stage_ready:
  assumes "state w = NoSwapchain"
    and "getImageCountAndExtent c (surfaceCapabilities_read c) w = Inr (n, e)"
    and "\<not> extent_out_of_range c e"
    and "createSwapchainKHR c = eSuccess"
    and "getImageCountAndExtent c (surfaceCapabilities_check c) w = Inr (n, e)"
  shows "build_NoSwapchain c w =
     Inr (w\<lparr>nrSwapchainImages := n, swapchainImageExtent := e,
           swapchainImageViews := swapchainImageViews w @ getSwapchainImagesKHR c,
           swapchainFramebuffers := swapchainFramebuffers w @ getSwapchainImagesKHR c,
           renderFinishedFence := True,
           calls := calls w @ [CreateSwapchainKHR n e, CreateImage depthImage e,
              CreateImage colorImage e] @ swapchain_resources c e,
           state := ReadyToRender\<rparr>)"
proof -
  let ?w2 = "w\<lparr>nrSwapchainImages := n, swapchainImageExtent := e,
                calls := calls w @ [CreateSwapchainKHR n e, CreateImage depthImage e,
                                    CreateImage colorImage e]\<rparr>"
  have d: "device w \<noteq> None" using assms(2) by (rule getImageCountAndExtent_device)
  then have d2: "device ?w2 \<noteq> None" by simp
  have "getImageCountAndExtent c (surfaceCapabilities_check c) ?w2 = Inr (n, e)"
    using getImageCountAndExtent_indep [OF d2 d] assms(5) by simp
  then have "checkSurfaceExtent c ?w2 = Inr (True, ?w2)"
    by (simp add: checkSurfaceExtent_read)
  then show ?thesis
    by (simp add: stage_created [OF assms(1-4)] build_resources_ok [OF d2])
qed

lemma stage_outcome:
  assumes sw: "state w = NoSwapchain" and dw: "device w \<noteq> None"
  shows "result_state (build_NoSwapchain c w) =
    (case getImageCountAndExtent c (surfaceCapabilities_read c) w of
       Inl x \<Rightarrow> if x = vk_SystemError eErrorSurfaceLostKHR then Some NoSwapchain else None
     | Inr (n, e) \<Rightarrow>
         if extent_out_of_range c e then Some NoSwapchain
         else if createSwapchainKHR c = eErrorSurfaceLostKHR then Some SurfaceLost
         else if createSwapchainKHR c \<noteq> eSuccess then None
         else (case getImageCountAndExtent c (surfaceCapabilities_check c) w of
                 Inl x \<Rightarrow> if x = vk_SystemError eErrorSurfaceLostKHR then Some SurfaceLost else None
               | Inr r \<Rightarrow> if r = (n, e) then Some ReadyToRender else Some NoSwapchain))"
proof (cases "getImageCountAndExtent c (surfaceCapabilities_read c) w")
  case (Inl x)
  show ?thesis
  proof (cases "x = vk_SystemError eErrorSurfaceLostKHR")
    case True
    with Inl show ?thesis
      using stage_read_lost [OF sw, of c] by (simp add: result_state_def sw)
  next
    case False
    with Inl show ?thesis
      using stage_read_throws [OF sw, of c x] by (simp add: result_state_def)
  qed
next
  case (Inr r)
  obtain n e where r: "r = (n, e)" by (cases r)
  note rd = Inr [unfolded r]
  show ?thesis
  proof (cases "extent_out_of_range c e")
    case True
    then show ?thesis
      using stage_out_of_range [OF sw rd] by (simp add: result_state_def rd)
  next
    case inr: False
    show ?thesis
    proof (cases "createSwapchainKHR c = eErrorSurfaceLostKHR")
      case True
      then show ?thesis
        using stage_create_lost [OF sw rd inr] by (simp add: result_state_def rd inr)
    next
      case nl: False
      show ?thesis
      proof (cases "createSwapchainKHR c = eSuccess")
        case False
        then show ?thesis
          using stage_create_throws [OF sw rd inr False nl] by (simp add: result_state_def rd inr nl)
      next
        case ok: True
        show ?thesis
        proof (cases "getImageCountAndExtent c (surfaceCapabilities_check c) w")
          case (Inl x)
          show ?thesis
          proof (cases "x = vk_SystemError eErrorSurfaceLostKHR")
            case True
            then show ?thesis
              using stage_check_lost [OF sw rd inr ok] Inl
              by (simp add: result_state_def rd inr nl ok)
          next
            case False
            then show ?thesis
              using stage_check_throws [OF sw rd inr ok Inl False]
              by (auto simp add: result_state_def rd inr nl ok Inl)
          qed
        next
          case (Inr r')
          obtain n' e' where r': "r' = (n', e')" by (cases r')
          note ck = Inr [unfolded r']
          show ?thesis
          proof (cases "n' = n \<and> e' = e")
            case True
            then show ?thesis
              using stage_ready [OF sw rd inr ok] ck
              by (simp add: result_state_def rd inr nl ok)
          next
            case False
            then have "n' \<noteq> n \<or> e' \<noteq> e" by simp
            from stage_check_changed [OF sw rd inr ok ck this] False show ?thesis
              by (simp add: result_state_def rd inr nl ok ck sw)
          qed
        qed
      qed
    qed
  qed
qed

lemma stage_state_indep:
  assumes "state w = NoSwapchain" "device w \<noteq> None" "state v = NoSwapchain" "device v \<noteq> None"
  shows "result_state (build_NoSwapchain c w) = result_state (build_NoSwapchain c v)"
  unfolding stage_outcome [OF assms(1,2)] stage_outcome [OF assms(3,4)]
    getImageCountAndExtent_indep [OF assms(2) assms(4)] ..

lemma stage_device:
  assumes "build_NoSwapchain c w = Inr w'"
  shows "device w' = device w"
proof (cases "state w = NoSwapchain")
  case False
  with assms show ?thesis by (simp add: build_NoSwapchain_def)
next
  case sw: True
  show ?thesis
  proof (cases "device w")
    case None
    with assms sw show ?thesis by (simp add: stage_no_device)
  next
    case (Some d)
    then have dw: "device w \<noteq> None" by simp
    show ?thesis
    proof (cases "getImageCountAndExtent c (surfaceCapabilities_read c) w")
      case (Inl x)
      with assms sw show ?thesis
        using stage_read_lost [OF sw, of c] stage_read_throws [OF sw, of c x]
        by (cases "x = vk_SystemError eErrorSurfaceLostKHR") auto
    next
      case (Inr r)
      obtain n e where r: "r = (n, e)" by (cases r)
      note rd = Inr [unfolded r]
      show ?thesis
      proof (cases "extent_out_of_range c e")
        case True
        then show ?thesis using stage_out_of_range [OF sw rd] assms by auto
      next
        case inr: False
        show ?thesis
        proof (cases "createSwapchainKHR c = eSuccess")
          case False
          then show ?thesis
            using stage_create_throws [OF sw rd inr False] stage_create_lost [OF sw rd inr] assms
            by (cases "createSwapchainKHR c = eErrorSurfaceLostKHR") auto
        next
          case ok: True
          show ?thesis
          proof (cases "getImageCountAndExtent c (surfaceCapabilities_check c) w")
            case (Inl x)
            then show ?thesis
              using stage_check_lost [OF sw rd inr ok] stage_check_throws [OF sw rd inr ok Inl] assms
              by (cases "x = vk_SystemError eErrorSurfaceLostKHR") auto
          next
            case (Inr r')
            obtain n' e' where r': "r' = (n', e')" by (cases r')
            note ck = Inr [unfolded r']
            show ?thesis
              using stage_ready [OF sw rd inr ok] stage_check_changed [OF sw rd inr ok ck] ck assms
              by (cases "n' = n \<and> e' = e") auto
          qed
        qed
      qed
    qed
  qed
qed

lemma getImageCountAndExtent_returns:
  "device w \<noteq> None \<Longrightarrow> a = Returns caps \<Longrightarrow>
   width (currentExtent caps) \<noteq> - 1 \<Longrightarrow> height (currentExtent caps) \<noteq> - 1 \<Longrightarrow>
   getImageCountAndExtent c a w =
     Inr (std_clamp (defaultNumberOfSwapchainImages c) (minImageCount caps)
            (if maxImageCount caps \<noteq> 0 then maxImageCount caps else 10),
          currentExtent caps)"
  by (auto simp: getImageCountAndExtent_def)

lemma reaches_prepared:
  assumes "reaches_swapchain_stage c w"
  shows "state (w\<lparr>calls := calls w @ surface_stage_calls (state w), state := NoSwapchain\<rparr>) = NoSwapchain"
    and "device (w\<lparr>calls := calls w @ surface_stage_calls (state w), state := NoSwapchain\<rparr>) \<noteq> None"
  using assms by (simp_all add: reaches_swapchain_stage_def)

lemma surface_stage_calls_no_creation:
  "x \<in> set (surface_stage_calls s) \<Longrightarrow> \<not> swapchain_resource_creation x"
  by (auto simp: surface_stage_calls_def all_pipelines_def split: if_splits)

text \<open>
  Claim C5. When \<^verbatim>\<open>build\<close> gets to read the surface and the surface reports an extent
  that is below the widget's minimum or above its maximum in some coordinate (the
  zero extent of a minimized window is below any positive minimum), \<^verbatim>\<open>build\<close>
  returns normally in state \<open>NoSwapchain\<close>, and none of its calls creates a swapchain,
  image, view, render pass, framebuffer, command buffer, semaphore or fence; entered
  in \<open>NoSwapchain\<close> it makes no call at all.
\<close>

theorem build_extent_out_of_range:
  assumes "reaches_swapchain_stage c w"
    and "surfaceCapabilities_read c = Returns caps"
    and "width (currentExtent caps) \<noteq> - 1" and "height (currentExtent caps) \<noteq> - 1"
    and "extent_out_of_range c (currentExtent caps)"
  shows "\<exists>w'. build c w = Inr w' \<and> state w' = NoSwapchain \<and>
           (\<forall>x \<in> set (new_calls w w'). \<not> swapchain_resource_creation x) \<and>
           (state w = NoSwapchain \<longrightarrow> calls w' = calls w)"
proof -
  let ?p = "w\<lparr>calls := calls w @ surface_stage_calls (state w), state := NoSwapchain\<rparr>"
  let ?n = "std_clamp (defaultNumberOfSwapchainImages c) (minImageCount caps)
            (if maxImageCount caps \<noteq> 0 then maxImageCount caps else 10)"
  have rd: "getImageCountAndExtent c (surfaceCapabilities_read c) ?p = Inr (?n, currentExtent caps)"
    using getImageCountAndExtent_returns [OF reaches_prepared(2) [OF assms(1)] assms(2-4)] .
  have "build c w = Inr (?p\<lparr>nrSwapchainImages := ?n, swapchainImageExtent := currentExtent caps,
                             state := NoSwapchain\<rparr>)"
    using stage_out_of_range [OF reaches_prepared(1) [OF assms(1)] rd assms(5)]
    by (simp add: build_reaches [OF assms(1)])
  then show ?thesis
    by (auto simp: new_calls_def surface_stage_calls_no_creation surface_stage_calls_def)
qed

theorem build_extent_out_of_range_witness:
  "reaches_swapchain_stage
     (example_conditions\<lparr>surfaceCapabilities_read :=
        Returns \<lparr>minImageCount = 2, maxImageCount = 8,
                 currentExtent = \<lparr>width = 0, height = 0\<rparr>\<rparr>\<rparr>)
     (bare_window NoSwapchain) \<and>
   extent_out_of_range example_conditions \<lparr>width = 0, height = 0\<rparr> \<and>
   (\<exists>w'. build (example_conditions\<lparr>surfaceCapabilities_read :=
              Returns \<lparr>minImageCount = 2, maxImageCount = 8,
                       currentExtent = \<lparr>width = 0, height = 0\<rparr>\<rparr>\<rparr>)
            (bare_window NoSwapchain) = Inr w' \<and>
         state w' = NoSwapchain \<and> calls w' = [])"
  using build_extent_out_of_range
    [of "example_conditions\<lparr>surfaceCapabilities_read :=
           Returns \<lparr>minImageCount = 2, maxImageCount = 8,
                    currentExtent = \<lparr>width = 0, height = 0\<rparr>\<rparr>\<rparr>"
        "bare_window NoSwapchain"
        "\<lparr>minImageCount = 2, maxImageCount = 8, currentExtent = \<lparr>width = 0, height = 0\<rparr>\<rparr>"]
  by (auto simp add: example_defs reaches_swapchain_stage_def extent_out_of_range_def narrow_cast_int_def)

text \<open>
  Claim C6. When the swapchain was created and the second reading of the surface
  gives another image count or another extent than the first, \<^verbatim>\<open>build\<close> destroys
  the swapchain and the two attachment images it has just created, creates nothing
  else, and returns in state \<open>NoSwapchain\<close>.
\<close>

theorem build_extent_changed:
  assumes "reaches_swapchain_stage c w"
    and "getImageCountAndExtent c (surfaceCapabilities_read c) w = Inr (n, e)"
    and "\<not> extent_out_of_range c e"
    and "createSwapchainKHR c = eSuccess"
    and "getImageCountAndExtent c (surfaceCapabilities_check c) w = Inr (n', e')"
    and "n' \<noteq> n \<or> e' \<noteq> e"
  shows "\<exists>w'. build c w = Inr w' \<and> state w' = NoSwapchain \<and>
           new_calls w w' = surface_stage_calls (state w) @
             [CreateSwapchainKHR n e, CreateImage depthImage e, CreateImage colorImage e,
              Destroy swapchain, Destroy depthImage, Destroy colorImage]"
proof -
  let ?p = "w\<lparr>calls := calls w @ surface_stage_calls (state w), state := NoSwapchain\<rparr>"
  have d: "device w \<noteq> None" using assms(1) by (simp add: reaches_swapchain_stage_def)
  note dp = reaches_prepared(2) [OF assms(1)]
  have rd: "getImageCountAndExtent c (surfaceCapabilities_read c) ?p = Inr (n, e)"
    using getImageCountAndExtent_indep [OF dp d] assms(2) by simp
  have ck: "getImageCountAndExtent c (surfaceCapabilities_check c) ?p = Inr (n', e')"
    using getImageCountAndExtent_indep [OF dp d] assms(5) by simp
  show ?thesis
    using stage_check_changed [OF reaches_prepared(1) [OF assms(1)] rd assms(3,4) ck assms(6)]
    by (simp add: build_reaches [OF assms(1)] new_calls_def)
qed

theorem build_extent_changed_witness:
  "reaches_swapchain_stage
     (example_conditions\<lparr>surfaceCapabilities_check :=
        Returns \<lparr>minImageCount = 2, maxImageCount = 8,
                 currentExtent = \<lparr>width = 1024, height = 768\<rparr>\<rparr>\<rparr>)
     (bare_window NoSwapchain) \<and>
   \<not> extent_out_of_range example_conditions \<lparr>width = 800, height = 600\<rparr> \<and>
   (\<exists>w'. build (example_conditions\<lparr>surfaceCapabilities_check :=
              Returns \<lparr>minImageCount = 2, maxImageCount = 8,
                       currentExtent = \<lparr>width = 1024, height = 768\<rparr>\<rparr>\<rparr>)
            (bare_window NoSwapchain) = Inr w' \<and>
         state w' = NoSwapchain \<and>
         new_calls (bare_window NoSwapchain) w' =
           [CreateSwapchainKHR 3 \<lparr>width = 800, height = 600\<rparr>,
            CreateImage depthImage \<lparr>width = 800, height = 600\<rparr>,
            CreateImage colorImage \<lparr>width = 800, height = 600\<rparr>,
            Destroy swapchain, Destroy depthImage, Destroy colorImage])"
  using build_extent_changed
    [of "example_conditions\<lparr>surfaceCapabilities_check :=
           Returns \<lparr>minImageCount = 2, maxImageCount = 8,
                    currentExtent = \<lparr>width = 1024, height = 768\<rparr>\<rparr>\<rparr>"
        "bare_window NoSwapchain" 3 "\<lparr>width = 800, height = 600\<rparr>"
        3 "\<lparr>width = 1024, height = 768\<rparr>"]
  by (simp add: example_defs reaches_swapchain_stage_def extent_out_of_range_def narrow_cast_int_def
      getImageCountAndExtent_def std_clamp_def surface_stage_calls_def)

lemma build_surface_fails:
  assumes "device w \<noteq> None" and "state w = NoSurface \<or> state w = NoDevice" and "score c \<le> 0"
  shows "build c w =
    Inr (w\<lparr>calls := calls w @
            (if state w = NoDevice then map (\<lambda>p. Notify p buildForNewDevice) all_pipelines else []) @
            [Create surface],
          state := DeviceLost\<rparr>)"
  using assms by (auto simp: build_def buildSurface_def Let_def)

lemma build_idle:
  assumes "state w = ReadyToRender \<or> state w = NoWindow \<or> State_ge (state w) SwapchainLost \<or>
           state w = NoDevice \<and> device w = None"
  shows "build c w = Inr w"
  using assms by (auto simp: build_def build_NoSwapchain_def State_ge_SwapchainLost_cases)

lemma build_no_device:
  assumes "state w = NoSurface \<or> state w = NoSwapchain" and "device w = None"
  shows "\<exists>x. build c w = Inl x"
  using assms by (auto simp: build_def buildSurface_def Let_def stage_no_device)

text \<open>
  Claim C7 as stated fails: an unexpected result of \<^verbatim>\<open>createSwapchainKHR\<close> (here
  out of device memory) is thrown as a \<^verbatim>\<open>gui_error\<close>, and the state the window is left
  in is \<open>NoSwapchain\<close>, not a loss marker.
\<close>

theorem build_unexpected_result_counterexample:
  "build (example_conditions\<lparr>createSwapchainKHR := eErrorOutOfDeviceMemory\<rparr>)
     (bare_window NoSwapchain) =
   Inl (gui_error ''Unknown result from createSwapchainKHR()'' eErrorOutOfDeviceMemory,
        (bare_window NoSwapchain)
          \<lparr>nrSwapchainImages := 3, swapchainImageExtent := \<lparr>width = 800, height = 600\<rparr>,
           calls := [CreateSwapchainKHR 3 \<lparr>width = 800, height = 600\<rparr>]\<rparr>) \<and>
   state ((bare_window NoSwapchain)
          \<lparr>nrSwapchainImages := 3, swapchainImageExtent := \<lparr>width = 800, height = 600\<rparr>,
           calls := [CreateSwapchainKHR 3 \<lparr>width = 800, height = 600\<rparr>]\<rparr>) = NoSwapchain"
  by (simp add: example_defs build_def build_NoSwapchain_def readSurfaceExtent_def
      getImageCountAndExtent_def std_clamp_def narrow_cast_int_def buildSwapchain_def Let_def)

text \<open>
  Claim C7, amended. A surface that scores zero or less puts the window in
  \<open>DeviceLost\<close>; \<^verbatim>\<open>createSwapchainKHR\<close> answering surface-lost puts it in \<open>SurfaceLost\<close>;
  any other answer than success is thrown as a \<^verbatim>\<open>gui_error\<close> with the state left at
  \<open>NoSwapchain\<close>; an extent outside the preferred size leaves the state at
  \<open>NoSwapchain\<close> and \<^verbatim>\<open>build\<close> returns normally.
\<close>

theorem build_failures:
  "(device w \<noteq> None \<and> (state w = NoSurface \<or> state w = NoDevice) \<and> score c \<le> 0 \<longrightarrow>
      (\<exists>w'. build c w = Inr w' \<and> state w' = DeviceLost)) \<and>
   (reaches_swapchain_stage c w \<and>
    getImageCountAndExtent c (surfaceCapabilities_read c) w = Inr (n, e) \<and>
    \<not> extent_out_of_range c e \<and> createSwapchainKHR c = eErrorSurfaceLostKHR \<longrightarrow>
      (\<exists>w'. build c w = Inr w' \<and> state w' = SurfaceLost)) \<and>
   (reaches_swapchain_stage c w \<and>
    getImageCountAndExtent c (surfaceCapabilities_read c) w = Inr (n, e) \<and>
    \<not> extent_out_of_range c e \<and>
    createSwapchainKHR c \<noteq> eSuccess \<and> createSwapchainKHR c \<noteq> eErrorSurfaceLostKHR \<longrightarrow>
      (\<exists>w'. build c w =
              Inl (gui_error ''Unknown result from createSwapchainKHR()'' (createSwapchainKHR c), w') \<and>
            state w' = NoSwapchain)) \<and>
   (reaches_swapchain_stage c w \<and>
    getImageCountAndExtent c (surfaceCapabilities_read c) w = Inr (n, e) \<and>
    extent_out_of_range c e \<longrightarrow>
      (\<exists>w'. build c w = Inr w' \<and> state w' = NoSwapchain))"
proof (intro conjI impI)
  assume "device w \<noteq> None \<and> (state w = NoSurface \<or> state w = NoDevice) \<and> score c \<le> 0"
  then show "\<exists>w'. build c w = Inr w' \<and> state w' = DeviceLost"
    using build_surface_fails [of w c] by simp
next
  let ?p = "w\<lparr>calls := calls w @ surface_stage_calls (state w), state := NoSwapchain\<rparr>"
  assume a: "reaches_swapchain_stage c w \<and>
    getImageCountAndExtent c (surfaceCapabilities_read c) w = Inr (n, e) \<and>
    \<not> extent_out_of_range c e \<and> createSwapchainKHR c = eErrorSurfaceLostKHR"
  then have r: "reaches_swapchain_stage c w" by simp
  have d: "device w \<noteq> None" using r by (simp add: reaches_swapchain_stage_def)
  have rd: "getImageCountAndExtent c (surfaceCapabilities_read c) ?p = Inr (n, e)"
    using getImageCountAndExtent_indep [OF reaches_prepared(2) [OF r] d] a by simp
  show "\<exists>w'. build c w = Inr w' \<and> state w' = SurfaceLost"
    using stage_create_lost [OF reaches_prepared(1) [OF r] rd] a
    by (simp add: build_reaches [OF r])
next
  let ?p = "w\<lparr>calls := calls w @ surface_stage_calls (state w), state := NoSwapchain\<rparr>"
  assume a: "reaches_swapchain_stage c w \<and>
    getImageCountAndExtent c (surfaceCapabilities_read c) w = Inr (n, e) \<and>
    \<not> extent_out_of_range c e \<and>
    createSwapchainKHR c \<noteq> eSuccess \<and> createSwapchainKHR c \<noteq> eErrorSurfaceLostKHR"
  then have r: "reaches_swapchain_stage c w" by simp
  have d: "device w \<noteq> None" using r by (simp add: reaches_swapchain_stage_def)
  have rd: "getImageCountAndExtent c (surfaceCapabilities_read c) ?p = Inr (n, e)"
    using getImageCountAndExtent_indep [OF reaches_prepared(2) [OF r] d] a by simp
  show "\<exists>w'. build c w =
              Inl (gui_error ''Unknown result from createSwapchainKHR()'' (createSwapchainKHR c), w') \<and>
            state w' = NoSwapchain"
    using stage_create_throws [OF reaches_prepared(1) [OF r] rd] a
    by (simp add: build_reaches [OF r])
next
  let ?p = "w\<lparr>calls := calls w @ surface_stage_calls (state w), state := NoSwapchain\<rparr>"
  assume a: "reaches_swapchain_stage c w \<and>
    getImageCountAndExtent c (surfaceCapabilities_read c) w = Inr (n, e) \<and>
    extent_out_of_range c e"
  then have r: "reaches_swapchain_stage c w" by simp
  have d: "device w \<noteq> None" using r by (simp add: reaches_swapchain_stage_def)
  have rd: "getImageCountAndExtent c (surfaceCapabilities_read c) ?p = Inr (n, e)"
    using getImageCountAndExtent_indep [OF reaches_prepared(2) [OF r] d] a by simp
  show "\<exists>w'. build c w = Inr w' \<and> state w' = NoSwapchain"
    using stage_out_of_range [OF reaches_prepared(1) [OF r] rd] a
    by (simp add: build_reaches [OF r])
qed

theorem build_failures_witness:
  "(\<exists>w'. build (example_conditions\<lparr>score := 0\<rparr>) (bare_window NoSurface) = Inr w' \<and>
         state w' = DeviceLost) \<and>
   (\<exists>w'. build (example_conditions\<lparr>createSwapchainKHR := eErrorSurfaceLostKHR\<rparr>)
           (bare_window NoSwapchain) = Inr w' \<and> state w' = SurfaceLost) \<and>
   (\<exists>w'. build (example_conditions\<lparr>createSwapchainKHR := eErrorDeviceLost\<rparr>)
           (bare_window NoSwapchain) =
         Inl (gui_error ''Unknown result from createSwapchainKHR()'' eErrorDeviceLost, w') \<and>
         state w' = NoSwapchain) \<and>
   (\<exists>w'. build (example_conditions\<lparr>preferred_size_build := ((900, 700), (4000, 4000))\<rparr>)
           (bare_window NoSwapchain) = Inr w' \<and> state w' = NoSwapchain)"
  using build_failures [of "bare_window NoSurface" "example_conditions\<lparr>score := 0\<rparr>"]
    build_failures [of "bare_window NoSwapchain"
      "example_conditions\<lparr>createSwapchainKHR := eErrorSurfaceLostKHR\<rparr>"
      3 "\<lparr>width = 800, height = 600\<rparr>"]
    build_failures [of "bare_window NoSwapchain"
      "example_conditions\<lparr>createSwapchainKHR := eErrorDeviceLost\<rparr>"
      3 "\<lparr>width = 800, height = 600\<rparr>"]
    build_failures [of "bare_window NoSwapchain"
      "example_conditions\<lparr>preferred_size_build := ((900, 700), (4000, 4000))\<rparr>"
      3 "\<lparr>width = 800, height = 600\<rparr>"]
  by (simp add: example_defs reaches_swapchain_stage_def extent_out_of_range_def narrow_cast_int_def
      getImageCountAndExtent_def std_clamp_def)

lemma stage_states:
  assumes "state w = NoSwapchain" "device w \<noteq> None" "build_NoSwapchain c w = Inr w'"
  shows "state w' = NoSwapchain \<or> state w' = SurfaceLost \<or> state w' = ReadyToRender"
proof -
  have "result_state (build_NoSwapchain c w) = Some (state w')"
    using assms(3) by (simp add: result_state_def)
  then show ?thesis
    unfolding stage_outcome [OF assms(1,2)]
    by (auto split: sum.splits prod.splits if_splits)
qed

lemma build_at_NoSwapchain:
  "state w = NoSwapchain \<Longrightarrow> build c w = build_NoSwapchain c w"
  by (simp add: build_def)

lemma recovery:
  assumes below: "\<not> State_ge (state w) SwapchainLost" and sc: "0 < score c"
  shows "result_state (then_result (then_result (build c w) teardown) (build c)) =
         result_state (build c w)"
proof -
  consider (idle) "state w = ReadyToRender \<or> state w = NoWindow \<or> state w = NoDevice \<and> device w = None"
    | (nodev) "state w = NoSurface \<or> state w = NoSwapchain" "device w = None"
    | (reach) "reaches_swapchain_stage c w"
    using below sc by (cases "state w") (auto simp: reaches_swapchain_stage_def State_ge_def)
  then show ?thesis
  proof cases
    case idle
    then have "build c w = Inr w" using build_idle [of w c] by auto
    then show ?thesis by (simp add: then_result_def teardown_below [OF below])
  next
    case nodev
    then obtain x where "build c w = Inl x" using build_no_device [of w c] by auto
    then show ?thesis by (simp add: then_result_def)
  next
    case reach
    let ?p = "w\<lparr>calls := calls w @ surface_stage_calls (state w), state := NoSwapchain\<rparr>"
    note sp = reaches_prepared(1) [OF reach] and dp = reaches_prepared(2) [OF reach]
    have b: "build c w = build_NoSwapchain c ?p" by (rule build_reaches [OF reach])
    show ?thesis
    proof (cases "build_NoSwapchain c ?p")
      case (Inl x)
      then show ?thesis by (simp add: b then_result_def)
    next
      case (Inr w1)
      have d1: "device w1 \<noteq> None" using stage_device [OF Inr] dp by simp
      from stage_states [OF sp dp Inr]
      consider "state w1 = ReadyToRender" | "state w1 = NoSwapchain" | "state w1 = SurfaceLost"
        by auto
      then show ?thesis
      proof cases
        case 1
        then have "teardown w1 = Inr w1" "build c w1 = Inr w1"
          using build_idle [of w1 c] by (simp_all add: teardown_below State_ge_def)
        then show ?thesis by (simp add: b Inr then_result_def)
      next
        case 2
        then have t: "teardown w1 = Inr w1" by (simp add: teardown_below State_ge_def)
        have "result_state (build c w1) = result_state (build_NoSwapchain c ?p)"
          using stage_state_indep [OF 2 d1 sp dp] by (simp add: build_at_NoSwapchain [OF 2])
        then show ?thesis by (simp add: b Inr then_result_def t)
      next
        case 3
        let ?w2 = "w1\<lparr>state := NoSurface, swapchainFramebuffers := [], swapchainImageViews := [],
          calls := calls w1 @ swapchain_release w1 @
            map (\<lambda>p. Notify p teardownForSurfaceLost) all_pipelines_reversed @ [Destroy surface]\<rparr>"
        have t: "teardown w1 = Inr ?w2" by (rule teardown_SurfaceLost [OF d1 3])
        have r2: "reaches_swapchain_stage c ?w2"
          using d1 sc by (simp add: reaches_swapchain_stage_def)
        have "result_state (build c ?w2) = result_state (build_NoSwapchain c ?p)"
          unfolding build_reaches [OF r2]
          by (rule stage_state_indep [OF reaches_prepared [OF r2] sp dp])
        then show ?thesis by (simp add: b Inr then_result_def t)
      qed
    qed
  qed
qed

text \<open>
  Claim C9 as stated fails in its third part. With a surface that scores zero the
  first \<^verbatim>\<open>build\<close> ends in \<open>DeviceLost\<close>, \<^verbatim>\<open>teardown\<close> detaches the device, and the
  second \<^verbatim>\<open>build\<close> stays in \<open>NoDevice\<close>. Entered in \<open>SwapchainLost\<close>, \<^verbatim>\<open>build\<close> does
  nothing, while after \<^verbatim>\<open>teardown\<close> the second \<^verbatim>\<open>build\<close> reaches \<open>ReadyToRender\<close>.
\<close>

theorem recovery_counterexample:
  "result_state (build (example_conditions\<lparr>score := 0\<rparr>) (bare_window NoSurface)) = Some DeviceLost \<and>
   result_state (then_result (then_result
      (build (example_conditions\<lparr>score := 0\<rparr>) (bare_window NoSurface)) teardown)
      (build (example_conditions\<lparr>score := 0\<rparr>))) = Some NoDevice \<and>
   result_state (build example_conditions (bare_window SwapchainLost)) = Some SwapchainLost \<and>
   result_state (then_result (then_result
      (build example_conditions (bare_window SwapchainLost)) teardown)
      (build example_conditions)) = Some ReadyToRender"
proof -
  let ?c = "example_conditions\<lparr>score := 0\<rparr>"
  have d: "device (bare_window s) \<noteq> None" for s by (simp add: example_defs)
  have b1: "build ?c (bare_window NoSurface) =
      Inr ((bare_window NoSurface)\<lparr>calls := [Create surface], state := DeviceLost\<rparr>)"
    using build_surface_fails [of "bare_window NoSurface" ?c]
    by (simp add: example_defs)
  have t1: "teardown ((bare_window NoSurface)\<lparr>calls := [Create surface], state := DeviceLost\<rparr>) = Inr w2
      \<Longrightarrow> state w2 = NoDevice \<and> device w2 = None" for w2
    using teardown_DeviceLost [of "(bare_window NoSurface)\<lparr>calls := [Create surface], state := DeviceLost\<rparr>"]
    by (auto simp add: example_defs)
  have p1: "result_state (then_result (then_result (build ?c (bare_window NoSurface)) teardown)
      (build ?c)) = Some NoDevice"
  proof (cases "teardown ((bare_window NoSurface)\<lparr>calls := [Create surface], state := DeviceLost\<rparr>)")
    case (Inl x)
    then show ?thesis
      using teardown_DeviceLost [of "(bare_window NoSurface)\<lparr>calls := [Create surface], state := DeviceLost\<rparr>"]
      by (simp add: example_defs)
  next
    case (Inr w2)
    with t1 have "state w2 = NoDevice" "device w2 = None" by auto
    then have "build ?c w2 = Inr w2" using build_idle [of w2 ?c] by simp
    then show ?thesis using \<open>state w2 = NoDevice\<close>
      by (simp add: b1 Inr then_result_def result_state_def)
  qed
  have b2: "build example_conditions (bare_window SwapchainLost) = Inr (bare_window SwapchainLost)"
    using build_idle [of "bare_window SwapchainLost" example_conditions]
    by (simp add: example_defs State_ge_def)
  let ?w2 = "(bare_window SwapchainLost)\<lparr>state := NoSwapchain, swapchainFramebuffers := [],
      swapchainImageViews := [], calls := calls (bare_window SwapchainLost) @
        swapchain_release (bare_window SwapchainLost)\<rparr>"
  have t2: "teardown (bare_window SwapchainLost) = Inr ?w2"
    using teardown_SwapchainLost [of "bare_window SwapchainLost"] by (simp add: example_defs)
  have rd: "getImageCountAndExtent example_conditions (surfaceCapabilities_read example_conditions) ?w2
      = Inr (3, \<lparr>width = 800, height = 600\<rparr>)"
    by (simp add: example_defs getImageCountAndExtent_def std_clamp_def)
  have ck: "getImageCountAndExtent example_conditions (surfaceCapabilities_check example_conditions) ?w2
      = Inr (3, \<lparr>width = 800, height = 600\<rparr>)"
    by (simp add: example_defs getImageCountAndExtent_def std_clamp_def)
  have "result_state (build_NoSwapchain example_conditions ?w2) = Some ReadyToRender"
    using stage_ready [of ?w2 example_conditions 3 "\<lparr>width = 800, height = 600\<rparr>", OF _ rd _ _ ck]
    by (simp add: result_state_def extent_out_of_range_def narrow_cast_int_def example_conditions_def)
  then have p2: "result_state (then_result (then_result
      (build example_conditions (bare_window SwapchainLost)) teardown)
      (build example_conditions)) = Some ReadyToRender"
    by (simp add: b2 t2 then_result_def build_at_NoSwapchain)
  show ?thesis
    using p1 p2 by (simp add: b1 b2 result_state_def) (simp add: example_defs)
qed

text \<open>
  Claim C9, amended. \<^verbatim>\<open>build\<close> in \<open>ReadyToRender\<close> and \<^verbatim>\<open>teardown\<close> below
  \<open>SwapchainLost\<close> leave the window as it is; and when the first \<^verbatim>\<open>build\<close> is entered
  below \<open>SwapchainLost\<close> (as \<^verbatim>\<open>render\<close> enters it) and the surface scores above zero,
  \<^verbatim>\<open>build\<close>, \<^verbatim>\<open>teardown\<close>, \<^verbatim>\<open>build\<close> under the same conditions ends in the state the
  first \<^verbatim>\<open>build\<close> ended in (or throws where the first threw).
\<close>

theorem build_teardown_idempotent:
  "(state w = ReadyToRender \<longrightarrow> build c w = Inr w) \<and>
   (\<not> State_ge (state w) SwapchainLost \<longrightarrow> teardown w = Inr w) \<and>
   (\<not> State_ge (state w) SwapchainLost \<and> 0 < score c \<longrightarrow>
      result_state (then_result (then_result (build c w) teardown) (build c)) =
      result_state (build c w))"
  using build_idle [of w c] teardown_below [of w] recovery [of w c] by blast

theorem build_teardown_idempotent_witness:
  "state (bare_window ReadyToRender) = ReadyToRender \<and>
   build example_conditions (bare_window ReadyToRender) = Inr (bare_window ReadyToRender) \<and>
   \<not> State_ge (state (bare_window NoSwapchain)) SwapchainLost \<and>
   teardown (bare_window NoSwapchain) = Inr (bare_window NoSwapchain) \<and>
   0 < score (example_conditions\<lparr>createSwapchainKHR := eErrorSurfaceLostKHR\<rparr>) \<and>
   result_state (then_result (then_result
      (build (example_conditions\<lparr>createSwapchainKHR := eErrorSurfaceLostKHR\<rparr>)
         (bare_window NoSwapchain)) teardown)
      (build (example_conditions\<lparr>createSwapchainKHR := eErrorSurfaceLostKHR\<rparr>))) =
   result_state (build (example_conditions\<lparr>createSwapchainKHR := eErrorSurfaceLostKHR\<rparr>)
      (bare_window NoSwapchain))"
  using build_teardown_idempotent [of "bare_window ReadyToRender" example_conditions]
    build_teardown_idempotent [of "bare_window NoSwapchain"
      "example_conditions\<lparr>createSwapchainKHR := eErrorSurfaceLostKHR\<rparr>"]
  by (simp add: example_defs State_ge_def)

section \<open>The frame\<close>

lemma update_window_fst: "fst (update_window c w) = needs_redraw c w"
  by (simp add: update_window_def needs_redraw_def Let_def)

lemma update_window_snd:
  "state (snd (update_window c w)) = state w"
  "device (snd (update_window c w)) = device w"
  "swapchainFramebuffers (snd (update_window c w)) = swapchainFramebuffers w"
  "swapchainImageViews (snd (update_window c w)) = swapchainImageViews w"
  "renderFinishedFence (snd (update_window c w)) = renderFinishedFence w"
  "requestResize (snd (update_window c w)) = False"
  "calls (snd (update_window c w)) =
     calls w @ size_check_calls c w @
       [SetLayoutParameters (currentWindowExtent (snd (update_window c w)))]"
  by (simp_all add: update_window_def size_check_calls_def Let_def)

lemma acquire_cases:
  assumes "device w \<noteq> None"
  shows "acquireNextImageFromSwapchain c w =
    (let w1 = w\<lparr>calls := calls w @ [AcquireNextImageKHR 0 imageAvailableSemaphore]\<rparr>;
         r = fst (acquireNextImageKHR c)
     in if r = eSuccess then Inr (Some (snd (acquireNextImageKHR c)), w1)
        else if r = eSuboptimalKHR \<or> r = eErrorOutOfDateKHR then Inr (None, w1\<lparr>state := SwapchainLost\<rparr>)
        else if r = eErrorSurfaceLostKHR then Inr (None, w1\<lparr>state := SurfaceLost\<rparr>)
        else if r = eTimeout then Inr (None, w1)
        else Inl (gui_error ''Unknown result from acquireNextImageKHR()'' r, w1))"
  using assms by (auto simp: acquireNextImageFromSwapchain_def Let_def)

lemma present_cases:
  assumes "device w \<noteq> None"
  shows "presentImageToQueue c i s w =
    (let w1 = w\<lparr>calls := calls w @ [PresentKHR [s] i]\<rparr>
     in if presentKHR c = Returns eSuccess then Inr w1
        else if presentKHR c = Returns eSuboptimalKHR \<or> presentKHR c = Throws eErrorOutOfDateKHR
          then Inr (w1\<lparr>state := SwapchainLost\<rparr>)
        else if presentKHR c = Throws eErrorSurfaceLostKHR then Inr (w1\<lparr>state := SurfaceLost\<rparr>)
        else Inl (case presentKHR c of
                    Returns r \<Rightarrow> gui_error ''Unknown result from presentKHR()'' r
                  | Throws r \<Rightarrow> vk_SystemError r, w1))"
  using assms by (auto simp: presentImageToQueue_def Let_def split: vk_outcome.splits)

lemma draw_frame_eq:
  assumes "device w \<noteq> None" and "unat i < length (swapchainFramebuffers w)"
  shows "draw_frame c i w =
    (case presentImageToQueue c i renderFinishedSemaphore
            (w\<lparr>calls := calls w @ butlast (frame_calls (swapchainFramebuffers w ! unat i) i)\<rparr>) of
       Inl x \<Rightarrow> Inl x
     | Inr w' \<Rightarrow> teardown w')"
  using assms
  by (simp add: draw_frame_def device_call_ok fillCommandBuffer_def submitCommandBuffer_def
      call_def frame_calls_def Let_def split: sum.splits)

lemma draw_frame_range:
  "length (swapchainFramebuffers w) \<le> unat i \<Longrightarrow> draw_frame c i w = Inl (out_of_range, w)"
  by (simp add: draw_frame_def)

lemma draw_frame_no_device:
  "device w = None \<Longrightarrow> unat i < length (swapchainFramebuffers w) \<Longrightarrow>
   draw_frame c i w = Inl (assertion_failure, w)"
  by (simp add: draw_frame_def device_call_def Let_def)

lemma teardown_extends:
  "\<exists>cs. calls (result_window (teardown w)) = calls w @ cs \<and> ResetFences \<notin> set cs \<and>
        (\<forall>a b n d. QueueSubmit a b n d True \<notin> set cs)"
proof (cases "State_ge (state w) SwapchainLost")
  case False
  then show ?thesis by (simp add: teardown_below result_window_def)
next
  case True
  show ?thesis
  proof (cases "device w")
    case None
    then show ?thesis using True by (simp add: teardown_no_device result_window_def)
  next
    case (Some d)
    then have d: "device w \<noteq> None" by simp
    from True consider "state w = SwapchainLost" | "state w = SurfaceLost"
      | "state w = DeviceLost" | "state w = WindowLost"
      by (auto simp: State_ge_SwapchainLost_cases)
    then show ?thesis
    proof cases
      case 1
      show ?thesis
        by (auto simp add: teardown_SwapchainLost [OF d 1] result_window_def swapchain_release_def
            all_pipelines_reversed_def)
    next
      case 2
      show ?thesis
        by (auto simp add: teardown_SurfaceLost [OF d 2] result_window_def swapchain_release_def
            all_pipelines_reversed_def)
    next
      case 3
      show ?thesis
        by (auto simp add: teardown_DeviceLost [OF d 3] result_window_def swapchain_release_def
            all_pipelines_reversed_def)
    next
      case 4
      show ?thesis
        by (auto simp add: teardown_WindowLost [OF d 4] result_window_def swapchain_release_def
            all_pipelines_reversed_def)
    qed
  qed
qed

lemma render_not_ready:
  "teardown w = Inr w1 \<Longrightarrow> build c w1 = Inr w2 \<Longrightarrow> state w2 \<noteq> ReadyToRender \<Longrightarrow>
   render c w = Inr w2"
  by (simp add: render_def)

lemma render_idle:
  "teardown w = Inr w1 \<Longrightarrow> build c w1 = Inr w2 \<Longrightarrow> state w2 = ReadyToRender \<Longrightarrow>
   \<not> needs_redraw c w2 \<Longrightarrow> render c w = Inr (snd (update_window c w2))"
  by (simp add: render_def update_window_fst Let_def)

lemma render_frame:
  "teardown w = Inr w1 \<Longrightarrow> build c w1 = Inr w2 \<Longrightarrow> state w2 = ReadyToRender \<Longrightarrow>
   needs_redraw c w2 \<Longrightarrow>
   render c w =
     (case acquireNextImageFromSwapchain c (snd (update_window c w2)) of
        Inl e \<Rightarrow> Inl e
      | Inr (None, w4) \<Rightarrow> Inr w4
      | Inr (Some frameBufferIndex, w4) \<Rightarrow> draw_frame c frameBufferIndex w4)"
  by (simp add: render_def update_window_fst Let_def)

lemma acquire_no_device:
  "device w = None \<Longrightarrow> acquireNextImageFromSwapchain c w = Inl (assertion_failure, w)"
  by (simp add: acquireNextImageFromSwapchain_def)

lemma draw_frame_extends:
  assumes "device w \<noteq> None" and "unat i < length (swapchainFramebuffers w)"
  shows "\<exists>tail. calls (result_window (draw_frame c i w)) =
           calls w @ frame_calls (swapchainFramebuffers w ! unat i) i @ tail \<and>
           ResetFences \<notin> set tail \<and> (\<forall>a b n d. QueueSubmit a b n d True \<notin> set tail)"
proof -
  let ?fc = "frame_calls (swapchainFramebuffers w ! unat i) i"
  let ?w0 = "w\<lparr>calls := calls w @ butlast ?fc\<rparr>"
  let ?w1 = "?w0\<lparr>calls := calls ?w0 @ [PresentKHR [renderFinishedSemaphore] i]\<rparr>"
  have fc: "calls ?w1 = calls w @ ?fc" by (simp add: frame_calls_def)
  have d0: "device ?w0 \<noteq> None" using assms(1) by simp
  consider (ok) s where "presentImageToQueue c i renderFinishedSemaphore ?w0 = Inr (?w1\<lparr>state := s\<rparr>)"
    | (thrown) x where "presentImageToQueue c i renderFinishedSemaphore ?w0 = Inl (x, ?w1)"
  proof -
    have *: "?w1 = ?w1\<lparr>state := state ?w1\<rparr>" by simp
    show thesis
      using present_cases [OF d0, of c i renderFinishedSemaphore]
      apply (simp only: Let_def split: if_splits)
         apply (rule ok [of "state ?w1"], simp)
        apply (rule ok [of SwapchainLost], simp)
       apply (rule ok [of SurfaceLost], simp)
      apply (rule thrown, simp)
      done
  qed
  then show ?thesis
  proof cases
    case (ok s)
    obtain cs where cs: "calls (result_window (teardown (?w1\<lparr>state := s\<rparr>))) = calls (?w1\<lparr>state := s\<rparr>) @ cs"
      "ResetFences \<notin> set cs" "\<forall>a b n d. QueueSubmit a b n d True \<notin> set cs"
      using teardown_extends [of "?w1\<lparr>state := s\<rparr>"] by blast
    have "calls (result_window (draw_frame c i w)) = calls w @ ?fc @ cs"
      using cs(1) fc by (simp add: draw_frame_eq [OF assms] ok)
    then show ?thesis using cs(2,3) by blast
  next
    case (thrown x)
    have "calls (result_window (draw_frame c i w)) = calls w @ ?fc @ []"
      using fc by (simp add: draw_frame_eq [OF assms] thrown result_window_def)
    then show ?thesis by (metis empty_iff empty_set)
  qed
qed

lemma frame_path_extends:
  assumes "teardown w = Inr w1" "build c w1 = Inr w2" "state w2 = ReadyToRender" "needs_redraw c w2"
  shows "\<exists>cs. calls (result_window (render c w)) = calls w2 @ cs"
proof -
  let ?w3 = "snd (update_window c w2)"
  have c3: "calls ?w3 = calls w2 @ size_check_calls c w2 @
       [SetLayoutParameters (currentWindowExtent ?w3)]"
    by (rule update_window_snd(7))
  note r = render_frame [OF assms]
  show ?thesis
  proof (cases "device w2")
    case None
    then have "device ?w3 = None" by (simp add: update_window_snd)
    then show ?thesis using c3 by (simp add: r acquire_no_device result_window_def)
  next
    case (Some d)
    then have d3: "device ?w3 \<noteq> None" by (simp add: update_window_snd)
    let ?w4 = "?w3\<lparr>calls := calls ?w3 @ [AcquireNextImageKHR 0 imageAvailableSemaphore]\<rparr>"
    have c4: "calls ?w4 = calls w2 @ size_check_calls c w2 @
       [SetLayoutParameters (currentWindowExtent ?w3)] @ [AcquireNextImageKHR 0 imageAvailableSemaphore]"
      using c3 by simp
    show ?thesis
    proof (cases "fst (acquireNextImageKHR c) = eSuccess")
      case False
      then show ?thesis
        using c4 by (auto simp add: r acquire_cases [OF d3] result_window_def Let_def)
    next
      case True
      let ?i = "snd (acquireNextImageKHR c)"
      have r': "render c w = draw_frame c ?i ?w4"
        using True by (simp add: r acquire_cases [OF d3] Let_def)
      show ?thesis
      proof (cases "unat ?i < length (swapchainFramebuffers ?w4)")
        case False
        then show ?thesis using c4 by (simp add: r' draw_frame_range result_window_def)
      next
        case True
        have d4: "device ?w4 \<noteq> None" using d3 by simp
        from draw_frame_extends [OF d4 True, of c] c4 show ?thesis
          by (auto simp add: r')
      qed
    qed
  qed
qed

lemma ready_window_idle:
  "teardown (built_window ReadyToRender\<lparr>requestResize := r\<rparr>) =
     Inr (built_window ReadyToRender\<lparr>requestResize := r\<rparr>)"
  "build c (built_window ReadyToRender\<lparr>requestResize := r\<rparr>) =
     Inr (built_window ReadyToRender\<lparr>requestResize := r\<rparr>)"
  by (simp_all add: teardown_below build_idle State_ge_def built_window_def)

subsection \<open>What teardown and build add to the log\<close>

lemma not_frame_work_release:
  "x \<in> set (swapchain_release w) \<Longrightarrow> frame_work x \<Longrightarrow> x = WaitForFences (- 1)"
  by (auto simp: swapchain_release_def all_pipelines_reversed_def split: if_splits)

lemma teardown_quiet:
  "\<exists>tc. calls (result_window (teardown w)) = calls w @ tc \<and>
        (\<forall>x \<in> set tc. frame_work x \<longrightarrow> x = WaitForFences (- 1)) \<and>
        (\<not> State_ge (state w) SwapchainLost \<longrightarrow> tc = [])"
proof (cases "State_ge (state w) SwapchainLost")
  case False
  then show ?thesis by (simp add: teardown_below result_window_def)
next
  case True
  show ?thesis
  proof (cases "device w")
    case None
    then show ?thesis using True by (simp add: teardown_no_device result_window_def)
  next
    case (Some d)
    then have d: "device w \<noteq> None" by simp
    from True consider "state w = SwapchainLost" | "state w = SurfaceLost"
      | "state w = DeviceLost" | "state w = WindowLost"
      by (auto simp: State_ge_SwapchainLost_cases)
    then show ?thesis
    proof cases
      case 1
      show ?thesis
        using not_frame_work_release [of _ w]
        by (auto simp add: teardown_SwapchainLost [OF d 1] result_window_def True)
    next
      case 2
      show ?thesis
        using not_frame_work_release [of _ w]
        by (auto simp add: teardown_SurfaceLost [OF d 2] result_window_def True
            all_pipelines_reversed_def)
    next
      case 3
      show ?thesis
        using not_frame_work_release [of _ w]
        by (auto simp add: teardown_DeviceLost [OF d 3] result_window_def True
            all_pipelines_reversed_def)
    next
      case 4
      show ?thesis
        using not_frame_work_release [of _ w]
        by (auto simp add: teardown_WindowLost [OF d 4] result_window_def True
            all_pipelines_reversed_def)
    qed
  qed
qed

lemma not_frame_work_resources: "x \<in> set (swapchain_resources c e) \<Longrightarrow> \<not> frame_work x"
  by (auto simp: swapchain_resources_def)

lemma not_frame_work_surface_stage: "x \<in> set (surface_stage_calls s) \<Longrightarrow> \<not> frame_work x"
  by (auto simp: surface_stage_calls_def all_pipelines_def split: if_splits)

lemma stage_quiet:
  assumes sw: "state w = NoSwapchain" and dw: "device w \<noteq> None"
  shows "\<exists>bc. calls (result_window (build_NoSwapchain c w)) = calls w @ bc \<and>
           (\<forall>x \<in> set bc. \<not> frame_work x)"
proof (cases "getImageCountAndExtent c (surfaceCapabilities_read c) w")
  case (Inl x)
  show ?thesis
  proof (cases "x = vk_SystemError eErrorSurfaceLostKHR")
    case True
    show ?thesis
      using stage_read_lost [OF sw Inl [unfolded True]] by (simp add: result_window_def)
  next
    case False
    show ?thesis
      using stage_read_throws [OF sw Inl False] by (simp add: result_window_def)
  qed
next
  case (Inr r)
  obtain n e where r: "r = (n, e)" by (cases r)
  note rd = Inr [unfolded r]
  show ?thesis
  proof (cases "extent_out_of_range c e")
    case True
    show ?thesis
      using stage_out_of_range [OF sw rd True] by (simp add: result_window_def)
  next
    case inr: False
    show ?thesis
    proof (cases "createSwapchainKHR c = eErrorSurfaceLostKHR")
      case True
      show ?thesis
        using stage_create_lost [OF sw rd inr True] by (simp add: result_window_def)
    next
      case nl: False
      show ?thesis
      proof (cases "createSwapchainKHR c = eSuccess")
        case False
        show ?thesis
          using stage_create_throws [OF sw rd inr False nl] by (simp add: result_window_def)
      next
        case ok: True
        show ?thesis
        proof (cases "getImageCountAndExtent c (surfaceCapabilities_check c) w")
          case (Inl x)
          show ?thesis
          proof (cases "x = vk_SystemError eErrorSurfaceLostKHR")
            case True
            show ?thesis
              using stage_check_lost [OF sw rd inr ok Inl [unfolded True]]
              by (simp add: result_window_def)
          next
            case False
            show ?thesis
              using stage_check_throws_window [OF sw rd inr ok Inl False]
              by (simp add: result_window_def)
          qed
        next
          case (Inr r')
          obtain n' e' where r': "r' = (n', e')" by (cases r')
          note ck = Inr [unfolded r']
          show ?thesis
          proof (cases "n' = n \<and> e' = e")
            case True
            then have ck': "getImageCountAndExtent c (surfaceCapabilities_check c) w = Inr (n, e)"
              using ck by simp
            show ?thesis
              using stage_ready [OF sw rd inr ok ck'] not_frame_work_resources [of _ c e]
              by (auto simp add: result_window_def)
          next
            case False
            then have ne: "n' \<noteq> n \<or> e' \<noteq> e" by simp
            show ?thesis
              using stage_check_changed [OF sw rd inr ok ck ne] by (simp add: result_window_def)
          qed
        qed
      qed
    qed
  qed
qed

lemma build_quiet:
  "\<exists>bc. calls (result_window (build c w)) = calls w @ bc \<and> (\<forall>x \<in> set bc. \<not> frame_work x)"
proof -
  consider (idle) "state w = ReadyToRender \<or> state w = NoWindow \<or> State_ge (state w) SwapchainLost \<or>
           state w = NoDevice \<and> device w = None"
    | (nosurf) "state w = NoSurface" "device w = None"
    | (noswap) "state w = NoSwapchain" "device w = None"
    | (fails) "device w \<noteq> None" "state w = NoSurface \<or> state w = NoDevice" "score c \<le> 0"
    | (reach) "reaches_swapchain_stage c w"
    by (cases "state w"; cases "device w = None"; cases "0 < score c")
       (auto simp: reaches_swapchain_stage_def State_ge_def)
  then show ?thesis
  proof cases
    case idle
    then have "build c w = Inr w" using build_idle [of w c] by blast
    then show ?thesis by (simp add: result_window_def)
  next
    case nosurf
    then have "build c w = Inl (assertion_failure, w\<lparr>calls := calls w @ [Create surface]\<rparr>)"
      by (simp add: build_def buildSurface_def Let_def)
    then show ?thesis by (simp add: result_window_def)
  next
    case noswap
    then have "build c w = Inl (assertion_failure, w)"
      by (simp add: build_at_NoSwapchain stage_no_device)
    then show ?thesis by (simp add: result_window_def)
  next
    case fails
    show ?thesis
      by (auto simp add: build_surface_fails [OF fails] result_window_def all_pipelines_def)
  next
    case reach
    let ?p = "w\<lparr>calls := calls w @ surface_stage_calls (state w), state := NoSwapchain\<rparr>"
    note sp = reaches_prepared(1) [OF reach] and dp = reaches_prepared(2) [OF reach]
    from stage_quiet [OF sp dp, of c] obtain bc where
      bc: "calls (result_window (build_NoSwapchain c ?p)) = calls ?p @ bc"
        "\<forall>x \<in> set bc. \<not> frame_work x" by blast
    have "calls (result_window (build c w)) = calls w @ (surface_stage_calls (state w) @ bc)"
      using bc(1) by (simp add: build_reaches [OF reach])
    moreover have "\<forall>x \<in> set (surface_stage_calls (state w) @ bc). \<not> frame_work x"
      using bc(2) not_frame_work_surface_stage by auto
    ultimately show ?thesis by blast
  qed
qed

text \<open>
  Claim C1 as stated fails in its list of the work that is skipped: it has a fence
  wait among the calls made only on a tick that draws, and the wait-idle of
  \<^verbatim>\<open>teardown\<close> waits for the render-finished fence. Here the tick is entered at
  \<open>SwapchainLost\<close> and the surface reports an extent of zero, so that the state after
  \<^verbatim>\<open>build\<close> is \<open>NoSwapchain\<close> and \<^verbatim>\<open>render\<close> returns without drawing; the first call
  of the tick is the fence wait.
\<close>

theorem render_teardown_wait_counterexample:
  "render (example_conditions\<lparr>surfaceCapabilities_read :=
             Returns \<lparr>minImageCount = 2, maxImageCount = 8,
                      currentExtent = \<lparr>width = 0, height = 0\<rparr>\<rparr>\<rparr>)
     (built_window SwapchainLost) =
   Inr (built_window NoSwapchain
     \<lparr>nrSwapchainImages := 3, swapchainImageExtent := \<lparr>width = 0, height = 0\<rparr>,
      swapchainFramebuffers := [], swapchainImageViews := [],
      calls :=
        [WaitForFences (- 1), DeviceWaitIdle,
         Notify toneMapperPipeline teardownForSwapchainLost,
         Notify SDFPipeline teardownForSwapchainLost,
         Notify imagePipeline teardownForSwapchainLost,
         Notify boxPipeline teardownForSwapchainLost,
         Notify flatPipeline teardownForSwapchainLost,
         Destroy (semaphore renderFinishedSemaphore),
         Destroy (semaphore imageAvailableSemaphore),
         Destroy fence, Destroy commandBuffer,
         Destroy (swapchainFramebuffer 10), Destroy (swapchainFramebuffer 11),
         Destroy (swapchainImageView 10), Destroy (swapchainImageView 11),
         Destroy depthImageView, Destroy colorImageView, Destroy renderPass,
         Destroy swapchain, Destroy depthImage, Destroy colorImage]\<rparr>)"
proof -
  let ?c = "example_conditions\<lparr>surfaceCapabilities_read :=
             Returns \<lparr>minImageCount = 2, maxImageCount = 8,
                      currentExtent = \<lparr>width = 0, height = 0\<rparr>\<rparr>\<rparr>"
  let ?w = "built_window SwapchainLost"
  let ?w1 = "?w\<lparr>state := NoSwapchain, swapchainFramebuffers := [], swapchainImageViews := [],
      calls := calls ?w @ swapchain_release ?w\<rparr>"
  let ?w2 = "?w1\<lparr>nrSwapchainImages := 3, swapchainImageExtent := \<lparr>width = 0, height = 0\<rparr>,
      state := NoSwapchain\<rparr>"
  have t: "teardown ?w = Inr ?w1"
    by (rule teardown_SwapchainLost) (simp_all add: built_window_def example_window_def)
  have s1: "state ?w1 = NoSwapchain" by simp
  have rd: "getImageCountAndExtent ?c (surfaceCapabilities_read ?c) ?w1 =
      Inr (3, \<lparr>width = 0, height = 0\<rparr>)"
    by (simp add: getImageCountAndExtent_def std_clamp_def example_defs)
  have oor: "extent_out_of_range ?c \<lparr>width = 0, height = 0\<rparr>"
    by (simp add: extent_out_of_range_def narrow_cast_int_def example_conditions_def)
  have b: "build ?c ?w1 = Inr ?w2"
    unfolding build_at_NoSwapchain [OF s1] by (rule stage_out_of_range [OF s1 rd oor])
  have "render ?c ?w = Inr ?w2"
    by (rule render_not_ready [OF t b]) simp
  then show ?thesis
    by (simp add: built_window_def example_window_def swapchain_release_def
        all_pipelines_reversed_def)
qed

text \<open>
  Claim C1, amended. \<^verbatim>\<open>render\<close> runs \<^verbatim>\<open>teardown\<close>, then \<^verbatim>\<open>build\<close> on its result, and
  passes on what either throws. Of the calls of the frame (acquire, fence wait or
  reset, recording, submission, presentation) \<^verbatim>\<open>teardown\<close> makes none but the wait
  for the render-finished fence of its wait-idle, and makes no call at all below
  \<open>SwapchainLost\<close>; \<^verbatim>\<open>build\<close> makes none; and after \<^verbatim>\<open>build\<close> there is none unless the
  state after \<^verbatim>\<open>build\<close> is \<open>ReadyToRender\<close> and the layout asked for a redraw or a
  redraw was requested. On a tick in \<open>ReadyToRender\<close> without redraw, \<^verbatim>\<open>render\<close>
  returns after the size check: the resize request is consumed and the only calls
  after \<^verbatim>\<open>build\<close> are the size request, if any, and the layout parameters. On a tick
  that is not in \<open>ReadyToRender\<close> after \<^verbatim>\<open>build\<close>, \<^verbatim>\<open>render\<close> returns what \<^verbatim>\<open>build\<close>
  left, with no further call.
\<close>

theorem render_skips_frame_work:
  "(\<exists>tc. calls (result_window (teardown w)) = calls w @ tc \<and>
          (\<forall>x \<in> set tc. frame_work x \<longrightarrow> x = WaitForFences (- 1)) \<and>
          (\<not> State_ge (state w) SwapchainLost \<longrightarrow> tc = [])) \<and>
   (\<forall>x. teardown w = Inl x \<longrightarrow> render c w = Inl x) \<and>
   (\<forall>w1. teardown w = Inr w1 \<longrightarrow>
      (\<exists>bc. calls (result_window (build c w1)) = calls w1 @ bc \<and>
             (\<forall>x \<in> set bc. \<not> frame_work x)) \<and>
      (\<forall>x. build c w1 = Inl x \<longrightarrow> render c w = Inl x) \<and>
      (\<forall>w2. build c w1 = Inr w2 \<longrightarrow>
         (\<exists>cs. calls (result_window (render c w)) = calls w2 @ cs \<and>
            ((\<exists>x \<in> set cs. frame_work x) \<longrightarrow>
               state w2 = ReadyToRender \<and>
               (update_layout c (requestLayout w2 \<or> update_constraints c (request_setting_change w2)) \<or>
                requestRedraw w2)) \<and>
            (state w2 = ReadyToRender \<and>
             \<not> (update_layout c (requestLayout w2 \<or> update_constraints c (request_setting_change w2)) \<or>
                requestRedraw w2) \<longrightarrow>
               (\<exists>w3. render c w = Inr w3 \<and> \<not> requestResize w3 \<and>
                  cs = size_check_calls c w2 @ [SetLayoutParameters (currentWindowExtent w3)])) \<and>
            (state w2 \<noteq> ReadyToRender \<longrightarrow> render c w = Inr w2 \<and> cs = []))))"
proof (intro conjI allI impI)
  show "\<exists>tc. calls (result_window (teardown w)) = calls w @ tc \<and>
          (\<forall>x \<in> set tc. frame_work x \<longrightarrow> x = WaitForFences (- 1)) \<and>
          (\<not> State_ge (state w) SwapchainLost \<longrightarrow> tc = [])"
    by (rule teardown_quiet)
next
  fix x assume "teardown w = Inl x"
  then show "render c w = Inl x" by (simp add: render_def)
next
  fix w1
  show "\<exists>bc. calls (result_window (build c w1)) = calls w1 @ bc \<and>
             (\<forall>x \<in> set bc. \<not> frame_work x)"
    by (rule build_quiet)
next
  fix w1 x assume "teardown w = Inr w1" "build c w1 = Inl x"
  then show "render c w = Inl x" by (simp add: render_def)
next
  fix w1 w2 assume t: "teardown w = Inr w1" and b: "build c w1 = Inr w2"
  let ?redraw = "update_layout c (requestLayout w2 \<or> update_constraints c (request_setting_change w2)) \<or>
                requestRedraw w2"
  have nr: "needs_redraw c w2 = ?redraw" by (simp add: needs_redraw_def)
  let ?w3 = "snd (update_window c w2)"
  consider (not_ready) "state w2 \<noteq> ReadyToRender"
    | (idle) "state w2 = ReadyToRender" "\<not> needs_redraw c w2"
    | (frame) "state w2 = ReadyToRender" "needs_redraw c w2"
    by blast
  then show "\<exists>cs. calls (result_window (render c w)) = calls w2 @ cs \<and>
            ((\<exists>x \<in> set cs. frame_work x) \<longrightarrow> state w2 = ReadyToRender \<and> ?redraw) \<and>
            (state w2 = ReadyToRender \<and> \<not> ?redraw \<longrightarrow>
               (\<exists>w3. render c w = Inr w3 \<and> \<not> requestResize w3 \<and>
                  cs = size_check_calls c w2 @ [SetLayoutParameters (currentWindowExtent w3)])) \<and>
            (state w2 \<noteq> ReadyToRender \<longrightarrow> render c w = Inr w2 \<and> cs = [])"
  proof cases
    case not_ready
    note r = render_not_ready [OF t b not_ready]
    have "calls (result_window (render c w)) = calls w2 @ []"
      by (simp add: r result_window_def)
    then show ?thesis using not_ready r by (intro exI [of _ "[]"]) simp
  next
    case idle
    have r: "render c w = Inr ?w3" by (rule render_idle [OF t b idle])
    let ?cs = "size_check_calls c w2 @ [SetLayoutParameters (currentWindowExtent ?w3)]"
    have "calls (result_window (render c w)) = calls w2 @ ?cs"
      by (simp add: r result_window_def update_window_snd(7))
    moreover have "\<not> (\<exists>x \<in> set ?cs. frame_work x)"
      by (auto simp: size_check_calls_def split: if_splits)
    moreover have "\<not> requestResize ?w3" by (simp add: update_window_snd)
    ultimately show ?thesis using r idle(1) by (intro exI [of _ ?cs]) blast
  next
    case frame
    from frame_path_extends [OF t b frame] obtain cs
      where "calls (result_window (render c w)) = calls w2 @ cs" ..
    then show ?thesis using frame nr by (intro exI [of _ cs]) simp
  qed
qed

theorem render_skips_frame_work_witness:
  "teardown (built_window ReadyToRender\<lparr>requestResize := True\<rparr>) =
     Inr (built_window ReadyToRender\<lparr>requestResize := True\<rparr>) \<and>
   build (example_conditions\<lparr>update_layout := (\<lambda>need_layout. False)\<rparr>)
     (built_window ReadyToRender\<lparr>requestResize := True\<rparr>) =
     Inr (built_window ReadyToRender\<lparr>requestResize := True\<rparr>) \<and>
   (\<exists>w3. render (example_conditions\<lparr>update_layout := (\<lambda>need_layout. False)\<rparr>)
            (built_window ReadyToRender\<lparr>requestResize := True\<rparr>) = Inr w3 \<and>
         \<not> requestResize w3 \<and>
         calls w3 = [SetWindowSize (100, 100), SetLayoutParameters (currentWindowExtent w3)])"
proof -
  let ?w = "built_window ReadyToRender\<lparr>requestResize := True\<rparr>"
  let ?c = "example_conditions\<lparr>update_layout := (\<lambda>need_layout. False)\<rparr>"
  note t = ready_window_idle(1) [of True] and b = ready_window_idle(2) [of ?c True]
  from render_skips_frame_work [of ?w ?c] t b
  obtain cs where cs: "calls (result_window (render ?c ?w)) = calls ?w @ cs"
    "state ?w = ReadyToRender \<and>
       \<not> (update_layout ?c (requestLayout ?w \<or> update_constraints ?c (request_setting_change ?w)) \<or>
          requestRedraw ?w) \<longrightarrow>
       (\<exists>w3. render ?c ?w = Inr w3 \<and> \<not> requestResize w3 \<and>
          cs = size_check_calls ?c ?w @ [SetLayoutParameters (currentWindowExtent w3)])"
    by blast
  have "state ?w = ReadyToRender \<and>
       \<not> (update_layout ?c (requestLayout ?w \<or> update_constraints ?c (request_setting_change ?w)) \<or>
          requestRedraw ?w)"
    by (simp add: built_window_def example_window_def example_conditions_def)
  with cs(2) obtain w3 where w3: "render ?c ?w = Inr w3" "\<not> requestResize w3"
    "cs = size_check_calls ?c ?w @ [SetLayoutParameters (currentWindowExtent w3)]" by blast
  have "size_check_calls ?c ?w = [SetWindowSize (100, 100)]"
    by (simp add: size_check_calls_def built_window_def example_window_def example_conditions_def)
  with cs(1) w3 have "calls w3 = [SetWindowSize (100, 100), SetLayoutParameters (currentWindowExtent w3)]"
    by (simp add: result_window_def built_window_def example_window_def)
  with w3 t b show ?thesis by blast
qed

text \<open>
  Claim C4. With a device attached, the acquire is made with timeout zero; success
  returns the index, suboptimal and out-of-date set \<open>SwapchainLost\<close>, surface-lost
  sets \<open>SurfaceLost\<close>, timeout leaves the state, each of them without an image, and
  every other result is thrown. The presentation returns on success, sets
  \<open>SwapchainLost\<close> on suboptimal or out-of-date and \<open>SurfaceLost\<close> on surface-lost, and
  throws on anything else. In \<^verbatim>\<open>render\<close>, a frame without an image ends with what
  the acquire returned or threw, and what the presentation throws leaves \<^verbatim>\<open>render\<close>.
\<close>

theorem acquire_and_present_outcomes:
  assumes "device w \<noteq> None"
  shows
   "(let w1 = w\<lparr>calls := calls w @ [AcquireNextImageKHR 0 imageAvailableSemaphore]\<rparr>;
         r = fst (acquireNextImageKHR c)
     in (r = eSuccess \<longrightarrow>
           acquireNextImageFromSwapchain c w = Inr (Some (snd (acquireNextImageKHR c)), w1)) \<and>
        (r = eSuboptimalKHR \<or> r = eErrorOutOfDateKHR \<longrightarrow>
           acquireNextImageFromSwapchain c w = Inr (None, w1\<lparr>state := SwapchainLost\<rparr>)) \<and>
        (r = eErrorSurfaceLostKHR \<longrightarrow>
           acquireNextImageFromSwapchain c w = Inr (None, w1\<lparr>state := SurfaceLost\<rparr>)) \<and>
        (r = eTimeout \<longrightarrow> acquireNextImageFromSwapchain c w = Inr (None, w1)) \<and>
        (r \<notin> {eSuccess, eSuboptimalKHR, eErrorOutOfDateKHR, eErrorSurfaceLostKHR, eTimeout} \<longrightarrow>
           acquireNextImageFromSwapchain c w =
             Inl (gui_error ''Unknown result from acquireNextImageKHR()'' r, w1))) \<and>
    (let w2 = w\<lparr>calls := calls w @ [PresentKHR [s] i]\<rparr>
     in (presentKHR c = Returns eSuccess \<longrightarrow> presentImageToQueue c i s w = Inr w2) \<and>
        (presentKHR c = Returns eSuboptimalKHR \<or> presentKHR c = Throws eErrorOutOfDateKHR \<longrightarrow>
           presentImageToQueue c i s w = Inr (w2\<lparr>state := SwapchainLost\<rparr>)) \<and>
        (presentKHR c = Throws eErrorSurfaceLostKHR \<longrightarrow>
           presentImageToQueue c i s w = Inr (w2\<lparr>state := SurfaceLost\<rparr>)) \<and>
        (\<forall>r. presentKHR c = Returns r \<and> r \<noteq> eSuccess \<and> r \<noteq> eSuboptimalKHR \<longrightarrow>
           presentImageToQueue c i s w = Inl (gui_error ''Unknown result from presentKHR()'' r, w2)) \<and>
        (\<forall>r. presentKHR c = Throws r \<and> r \<noteq> eErrorOutOfDateKHR \<and> r \<noteq> eErrorSurfaceLostKHR \<longrightarrow>
           presentImageToQueue c i s w = Inl (vk_SystemError r, w2))) \<and>
    (\<forall>w0 w1 w2. teardown w0 = Inr w1 \<and> build c w1 = Inr w2 \<and> state w2 = ReadyToRender \<and>
        needs_redraw c w2 \<and> snd (update_window c w2) = w \<longrightarrow>
        (fst (acquireNextImageKHR c) \<noteq> eSuccess \<longrightarrow>
           render c w0 = map_sum id snd (acquireNextImageFromSwapchain c w)) \<and>
        (fst (acquireNextImageKHR c) = eSuccess \<and>
         unat (snd (acquireNextImageKHR c)) < length (swapchainFramebuffers w) \<longrightarrow>
           (\<forall>x. presentImageToQueue c (snd (acquireNextImageKHR c)) renderFinishedSemaphore
                  (w\<lparr>calls := calls w @ AcquireNextImageKHR 0 imageAvailableSemaphore #
                       butlast (frame_calls (swapchainFramebuffers w ! unat (snd (acquireNextImageKHR c)))
                                  (snd (acquireNextImageKHR c)))\<rparr>) = Inl x \<longrightarrow>
                render c w0 = Inl x)))"
proof (intro conjI)
  show "let w1 = w\<lparr>calls := calls w @ [AcquireNextImageKHR 0 imageAvailableSemaphore]\<rparr>;
         r = fst (acquireNextImageKHR c)
     in (r = eSuccess \<longrightarrow>
           acquireNextImageFromSwapchain c w = Inr (Some (snd (acquireNextImageKHR c)), w1)) \<and>
        (r = eSuboptimalKHR \<or> r = eErrorOutOfDateKHR \<longrightarrow>
           acquireNextImageFromSwapchain c w = Inr (None, w1\<lparr>state := SwapchainLost\<rparr>)) \<and>
        (r = eErrorSurfaceLostKHR \<longrightarrow>
           acquireNextImageFromSwapchain c w = Inr (None, w1\<lparr>state := SurfaceLost\<rparr>)) \<and>
        (r = eTimeout \<longrightarrow> acquireNextImageFromSwapchain c w = Inr (None, w1)) \<and>
        (r \<notin> {eSuccess, eSuboptimalKHR, eErrorOutOfDateKHR, eErrorSurfaceLostKHR, eTimeout} \<longrightarrow>
           acquireNextImageFromSwapchain c w =
             Inl (gui_error ''Unknown result from acquireNextImageKHR()'' r, w1))"
    by (auto simp add: acquire_cases [OF assms] Let_def)
next
  show "let w2 = w\<lparr>calls := calls w @ [PresentKHR [s] i]\<rparr>
     in (presentKHR c = Returns eSuccess \<longrightarrow> presentImageToQueue c i s w = Inr w2) \<and>
        (presentKHR c = Returns eSuboptimalKHR \<or> presentKHR c = Throws eErrorOutOfDateKHR \<longrightarrow>
           presentImageToQueue c i s w = Inr (w2\<lparr>state := SwapchainLost\<rparr>)) \<and>
        (presentKHR c = Throws eErrorSurfaceLostKHR \<longrightarrow>
           presentImageToQueue c i s w = Inr (w2\<lparr>state := SurfaceLost\<rparr>)) \<and>
        (\<forall>r. presentKHR c = Returns r \<and> r \<noteq> eSuccess \<and> r \<noteq> eSuboptimalKHR \<longrightarrow>
           presentImageToQueue c i s w = Inl (gui_error ''Unknown result from presentKHR()'' r, w2)) \<and>
        (\<forall>r. presentKHR c = Throws r \<and> r \<noteq> eErrorOutOfDateKHR \<and> r \<noteq> eErrorSurfaceLostKHR \<longrightarrow>
           presentImageToQueue c i s w = Inl (vk_SystemError r, w2))"
    by (auto simp add: present_cases [OF assms] Let_def)
next
  show "\<forall>w0 w1 w2. teardown w0 = Inr w1 \<and> build c w1 = Inr w2 \<and> state w2 = ReadyToRender \<and>
        needs_redraw c w2 \<and> snd (update_window c w2) = w \<longrightarrow>
        (fst (acquireNextImageKHR c) \<noteq> eSuccess \<longrightarrow>
           render c w0 = map_sum id snd (acquireNextImageFromSwapchain c w)) \<and>
        (fst (acquireNextImageKHR c) = eSuccess \<and>
         unat (snd (acquireNextImageKHR c)) < length (swapchainFramebuffers w) \<longrightarrow>
           (\<forall>x. presentImageToQueue c (snd (acquireNextImageKHR c)) renderFinishedSemaphore
                  (w\<lparr>calls := calls w @ AcquireNextImageKHR 0 imageAvailableSemaphore #
                       butlast (frame_calls (swapchainFramebuffers w ! unat (snd (acquireNextImageKHR c)))
                                  (snd (acquireNextImageKHR c)))\<rparr>) = Inl x \<longrightarrow>
                render c w0 = Inl x))"
  proof (intro allI impI conjI)
    fix w0 w1 w2
    assume a: "teardown w0 = Inr w1 \<and> build c w1 = Inr w2 \<and> state w2 = ReadyToRender \<and>
        needs_redraw c w2 \<and> snd (update_window c w2) = w"
    then have r: "render c w0 =
     (case acquireNextImageFromSwapchain c w of
        Inl e \<Rightarrow> Inl e
      | Inr (None, w4) \<Rightarrow> Inr w4
      | Inr (Some frameBufferIndex, w4) \<Rightarrow> draw_frame c frameBufferIndex w4)"
      using render_frame [of w0 w1 c w2] by auto
    {
      assume "fst (acquireNextImageKHR c) \<noteq> eSuccess"
      then show "render c w0 = map_sum id snd (acquireNextImageFromSwapchain c w)"
        by (auto simp add: r acquire_cases [OF assms] Let_def)
    }
    {
      fix x
      let ?i = "snd (acquireNextImageKHR c)"
      let ?w4 = "w\<lparr>calls := calls w @ [AcquireNextImageKHR 0 imageAvailableSemaphore]\<rparr>"
      assume s: "fst (acquireNextImageKHR c) = eSuccess \<and>
         unat ?i < length (swapchainFramebuffers w)"
      assume p: "presentImageToQueue c ?i renderFinishedSemaphore
                  (w\<lparr>calls := calls w @ AcquireNextImageKHR 0 imageAvailableSemaphore #
                       butlast (frame_calls (swapchainFramebuffers w ! unat ?i) ?i)\<rparr>) = Inl x"
      have d4: "device ?w4 \<noteq> None" using assms by simp
      have l4: "unat ?i < length (swapchainFramebuffers ?w4)" using s by simp
      have "render c w0 = draw_frame c ?i ?w4"
        using s by (simp add: r acquire_cases [OF assms] Let_def)
      then show "render c w0 = Inl x"
        using p by (simp add: draw_frame_eq [OF d4 l4])
    }
  qed
qed

theorem acquire_and_present_outcomes_witness:
  "device (built_window ReadyToRender) \<noteq> None \<and>
   acquireNextImageFromSwapchain
     (example_conditions\<lparr>acquireNextImageKHR := (eErrorOutOfDateKHR, 0)\<rparr>)
     (built_window ReadyToRender) =
   Inr (None, built_window ReadyToRender
          \<lparr>calls := [AcquireNextImageKHR 0 imageAvailableSemaphore], state := SwapchainLost\<rparr>) \<and>
   acquireNextImageFromSwapchain
     (example_conditions\<lparr>acquireNextImageKHR := (eNotReady, 0)\<rparr>)
     (built_window ReadyToRender) =
   Inl (gui_error ''Unknown result from acquireNextImageKHR()'' eNotReady,
        built_window ReadyToRender\<lparr>calls := [AcquireNextImageKHR 0 imageAvailableSemaphore]\<rparr>) \<and>
   presentImageToQueue (example_conditions\<lparr>presentKHR := Throws eErrorSurfaceLostKHR\<rparr>) 1
     renderFinishedSemaphore (built_window ReadyToRender) =
   Inr (built_window ReadyToRender
          \<lparr>calls := [PresentKHR [renderFinishedSemaphore] 1], state := SurfaceLost\<rparr>)"
  using acquire_and_present_outcomes
      [of "built_window ReadyToRender"
          "example_conditions\<lparr>acquireNextImageKHR := (eErrorOutOfDateKHR, 0)\<rparr>"]
    acquire_and_present_outcomes
      [of "built_window ReadyToRender"
          "example_conditions\<lparr>acquireNextImageKHR := (eNotReady, 0)\<rparr>"]
    acquire_and_present_outcomes
      [of "built_window ReadyToRender"
          "example_conditions\<lparr>presentKHR := Throws eErrorSurfaceLostKHR\<rparr>"
          renderFinishedSemaphore 1]
  by (simp add: Let_def built_window_def example_window_def example_conditions_def)

text \<open>
  Claim C8 as stated fails: the submission of the command buffer passes the null
  fence, as this frame of a ready window shows; the render-finished fence is passed
  to a second, empty submission.
\<close>

theorem command_buffer_submission_counterexample:
  "render example_conditions (built_window ReadyToRender) =
   Inr (built_window ReadyToRender
     \<lparr>calls :=
        [SetLayoutParameters (800, 600),
         AcquireNextImageKHR 0 imageAvailableSemaphore,
         WaitForFences (- 1), ResetFences, WidgetDraw,
         Record cmd_reset, Record cmd_begin, Record (beginRenderPass 11),
         Record (drawInCommandBuffer flatPipeline),
         Record nextSubpass, Record (drawInCommandBuffer boxPipeline),
         Record nextSubpass, Record (drawInCommandBuffer imagePipeline),
         Record nextSubpass, Record (drawInCommandBuffer SDFPipeline),
         Record nextSubpass, Record (drawInCommandBuffer toneMapperPipeline),
         Record endRenderPass, Record cmd_end,
         QueueSubmit [imageAvailableSemaphore] [eColorAttachmentOutput] 1
           [renderFinishedSemaphore] False,
         QueueSubmit [] [] 0 [] True,
         PresentKHR [renderFinishedSemaphore] 1]\<rparr>)"
proof -
  let ?w = "built_window ReadyToRender"
  let ?c = example_conditions
  have t: "teardown ?w = Inr ?w" and b: "build ?c ?w = Inr ?w"
    by (simp_all add: teardown_below build_idle State_ge_def built_window_def)
  have s: "state ?w = ReadyToRender" by (simp add: built_window_def)
  have n: "needs_redraw ?c ?w" by (simp add: needs_redraw_def example_conditions_def)
  have u: "snd (update_window ?c ?w) = ?w\<lparr>calls := [SetLayoutParameters (800, 600)]\<rparr>"
    by (simp add: update_window_def Let_def built_window_def example_window_def
        example_conditions_def extent_below_def extent_above_def)
  have a: "acquireNextImageFromSwapchain ?c (?w\<lparr>calls := [SetLayoutParameters (800, 600)]\<rparr>) =
      Inr (Some 1, ?w\<lparr>calls := [SetLayoutParameters (800, 600),
                                  AcquireNextImageKHR 0 imageAvailableSemaphore]\<rparr>)"
    by (simp add: acquireNextImageFromSwapchain_def Let_def built_window_def example_window_def
        example_conditions_def)
  let ?w4 = "?w\<lparr>calls := [SetLayoutParameters (800, 600),
                                  AcquireNextImageKHR 0 imageAvailableSemaphore]\<rparr>"
  have d4: "device ?w4 \<noteq> None" and l4: "unat (1 :: 32 word) < length (swapchainFramebuffers ?w4)"
    by (simp_all add: built_window_def example_window_def)
  have "render ?c ?w = draw_frame ?c 1 ?w4"
    by (simp add: render_frame [OF t b s n] u a)
  also have "\<dots> = teardown (?w4\<lparr>calls := calls ?w4 @ frame_calls 11 1\<rparr>)"
  proof -
    let ?w5 = "?w4\<lparr>calls := calls ?w4 @
      butlast (frame_calls (swapchainFramebuffers ?w4 ! unat (1 :: 32 word)) 1)\<rparr>"
    have pr: "presentImageToQueue ?c 1 renderFinishedSemaphore ?w5 =
        Inr (?w4\<lparr>calls := calls ?w4 @ frame_calls 11 1\<rparr>)"
      by (simp add: presentImageToQueue_def frame_calls_def
          built_window_def example_window_def example_conditions_def)
    show ?thesis unfolding draw_frame_eq [OF d4 l4] pr by simp
  qed
  also have "\<dots> = Inr (?w4\<lparr>calls := calls ?w4 @ frame_calls 11 1\<rparr>)"
    by (simp add: teardown_below State_ge_def built_window_def example_window_def)
  finally show ?thesis
    by (simp add: frame_calls_def built_window_def example_window_def)
qed

text \<open>
  Claim C8, amended. In a frame that acquired an image, the command buffer is
  submitted waiting on the image-available semaphore at the colour-attachment-output
  stage and signalling the render-finished semaphore, without a fence; an empty
  submission with the render-finished fence follows on the same queue; then the
  image is presented waiting on the render-finished semaphore.
\<close>

theorem frame_submission_order:
  assumes "teardown w = Inr w1" and "build c w1 = Inr w2"
    and "state w2 = ReadyToRender" and "device w2 \<noteq> None"
    and "needs_redraw c w2"
    and "fst (acquireNextImageKHR c) = eSuccess"
    and "unat (snd (acquireNextImageKHR c)) < length (swapchainFramebuffers w2)"
  shows "\<exists>pre tail. (\<forall>x \<in> set pre. \<not> frame_work x) \<and>
     calls (result_window (render c w)) = calls w2 @ pre @
       [AcquireNextImageKHR 0 imageAvailableSemaphore,
        WaitForFences (- 1), ResetFences, WidgetDraw,
        Record cmd_reset, Record cmd_begin,
        Record (beginRenderPass (swapchainFramebuffers w2 ! unat (snd (acquireNextImageKHR c)))),
        Record (drawInCommandBuffer flatPipeline),
        Record nextSubpass, Record (drawInCommandBuffer boxPipeline),
        Record nextSubpass, Record (drawInCommandBuffer imagePipeline),
        Record nextSubpass, Record (drawInCommandBuffer SDFPipeline),
        Record nextSubpass, Record (drawInCommandBuffer toneMapperPipeline),
        Record endRenderPass, Record cmd_end,
        QueueSubmit [imageAvailableSemaphore] [eColorAttachmentOutput] 1 [renderFinishedSemaphore] False,
        QueueSubmit [] [] 0 [] True,
        PresentKHR [renderFinishedSemaphore] (snd (acquireNextImageKHR c))] @ tail"
proof -
  let ?w3 = "snd (update_window c w2)"
  let ?i = "snd (acquireNextImageKHR c)"
  let ?pre = "size_check_calls c w2 @ [SetLayoutParameters (currentWindowExtent ?w3)]"
  let ?w4 = "?w3\<lparr>calls := calls ?w3 @ [AcquireNextImageKHR 0 imageAvailableSemaphore]\<rparr>"
  have d3: "device ?w3 \<noteq> None" using assms(4) by (simp add: update_window_snd)
  have d4: "device ?w4 \<noteq> None" using d3 by simp
  have l4: "unat ?i < length (swapchainFramebuffers ?w4)"
    using assms(7) by (simp add: update_window_snd)
  have r: "render c w = draw_frame c ?i ?w4"
    using assms(6) by (simp add: render_frame [OF assms(1,2,3,5)] acquire_cases [OF d3] Let_def)
  from draw_frame_extends [OF d4 l4, of c] obtain tail where
    "calls (result_window (draw_frame c ?i ?w4)) =
       calls ?w4 @ frame_calls (swapchainFramebuffers ?w4 ! unat ?i) ?i @ tail" by blast
  then have "calls (result_window (render c w)) =
      calls w2 @ ?pre @ AcquireNextImageKHR 0 imageAvailableSemaphore #
        frame_calls (swapchainFramebuffers w2 ! unat ?i) ?i @ tail"
    by (simp add: r update_window_snd)
  moreover have "\<forall>x \<in> set ?pre. \<not> frame_work x"
    by (auto simp: size_check_calls_def split: if_splits)
  ultimately show ?thesis
    by (intro exI [of _ ?pre] exI [of _ tail]) (simp add: frame_calls_def)
qed

theorem frame_submission_order_witness:
  "teardown (built_window ReadyToRender) = Inr (built_window ReadyToRender) \<and>
   build example_conditions (built_window ReadyToRender) = Inr (built_window ReadyToRender) \<and>
   needs_redraw example_conditions (built_window ReadyToRender) \<and>
   (\<exists>pre tail. (\<forall>x \<in> set pre. \<not> frame_work x) \<and>
     calls (result_window (render example_conditions (built_window ReadyToRender))) =
       pre @
       [AcquireNextImageKHR 0 imageAvailableSemaphore,
        WaitForFences (- 1), ResetFences, WidgetDraw,
        Record cmd_reset, Record cmd_begin, Record (beginRenderPass 11),
        Record (drawInCommandBuffer flatPipeline),
        Record nextSubpass, Record (drawInCommandBuffer boxPipeline),
        Record nextSubpass, Record (drawInCommandBuffer imagePipeline),
        Record nextSubpass, Record (drawInCommandBuffer SDFPipeline),
        Record nextSubpass, Record (drawInCommandBuffer toneMapperPipeline),
        Record endRenderPass, Record cmd_end,
        QueueSubmit [imageAvailableSemaphore] [eColorAttachmentOutput] 1 [renderFinishedSemaphore] False,
        QueueSubmit [] [] 0 [] True,
        PresentKHR [renderFinishedSemaphore] 1] @ tail)"
proof -
  let ?w = "built_window ReadyToRender"
  let ?c = example_conditions
  have t: "teardown ?w = Inr ?w" and b: "build ?c ?w = Inr ?w"
    by (simp_all add: teardown_below build_idle State_ge_def built_window_def)
  have s: "state ?w = ReadyToRender" and d: "device ?w \<noteq> None"
    by (simp_all add: built_window_def example_window_def)
  have n: "needs_redraw ?c ?w" by (simp add: needs_redraw_def example_conditions_def)
  have a: "fst (acquireNextImageKHR ?c) = eSuccess"
    and l: "unat (snd (acquireNextImageKHR ?c)) < length (swapchainFramebuffers ?w)"
    by (simp_all add: example_conditions_def built_window_def example_window_def)
  from frame_submission_order [OF t b s d n a l] t b n show ?thesis
    by (simp add: example_conditions_def built_window_def example_window_def)
qed

section \<open>The render-finished fence\<close>

lemma fence_after_append:
  "fence_after (xs @ ys) = foldl fence_step (fence_after xs) ys"
  by (simp add: fence_after_def)

lemma fence_after_resources:
  "foldl fence_step s (swapchain_resources c e) = signaled"
  by (simp add: swapchain_resources_def)

lemma reset_notin_resources: "ResetFences \<notin> set (swapchain_resources c e)"
  by (auto simp: swapchain_resources_def)

lemma reset_notin_surface_stage: "ResetFences \<notin> set (surface_stage_calls s)"
  by (auto simp: surface_stage_calls_def all_pipelines_def)

lemma reset_notin_release: "ResetFences \<notin> set (swapchain_release w)"
  by (auto simp: swapchain_release_def all_pipelines_reversed_def)

lemma teardown_result:
  obtains (kept) "teardown w = Inr w"
  | (asserted) "teardown w = Inl (assertion_failure, w)" "state w \<noteq> ReadyToRender"
  | (released) k cs where "teardown w = Inr k" "state k \<noteq> ReadyToRender"
      "ResetFences \<notin> set cs" "calls k = calls w @ cs"
proof (cases "State_ge (state w) SwapchainLost")
  case False
  then show ?thesis using kept by (simp add: teardown_below)
next
  case True
  then have nr: "state w \<noteq> ReadyToRender" by (auto simp: State_ge_def)
  show ?thesis
  proof (cases "device w")
    case None
    then show ?thesis using asserted True nr by (simp add: teardown_no_device)
  next
    case (Some d)
    then have d: "device w \<noteq> None" by simp
    from True consider "state w = SwapchainLost" | "state w = SurfaceLost"
      | "state w = DeviceLost" | "state w = WindowLost"
      by (auto simp: State_ge_SwapchainLost_cases)
    then show ?thesis
    proof cases
      case 1
      show ?thesis
        by (rule released [OF teardown_SwapchainLost [OF d 1]])
           (simp_all add: reset_notin_release)
    next
      case 2
      show ?thesis
        by (rule released [OF teardown_SurfaceLost [OF d 2]])
           (auto simp add: reset_notin_release)
    next
      case 3
      show ?thesis
        by (rule released [OF teardown_DeviceLost [OF d 3]])
           (auto simp add: reset_notin_release)
    next
      case 4
      show ?thesis
        by (rule released [OF teardown_WindowLost [OF d 4]])
           (auto simp add: reset_notin_release)
    qed
  qed
qed

lemma stage_result:
  assumes sw: "state w = NoSwapchain" and dw: "device w \<noteq> None"
  obtains (thrown) x k cs where "build_NoSwapchain c w = Inl (x, k)" "state k \<noteq> ReadyToRender"
      "ResetFences \<notin> set cs" "calls k = calls w @ cs"
  | (stopped) k cs where "build_NoSwapchain c w = Inr k" "state k \<noteq> ReadyToRender"
      "ResetFences \<notin> set cs" "calls k = calls w @ cs"
  | (ready) k cs where "build_NoSwapchain c w = Inr k" "state k = ReadyToRender"
      "ResetFences \<notin> set cs" "fence_after (calls k) = signaled" "calls k = calls w @ cs"
proof (cases "getImageCountAndExtent c (surfaceCapabilities_read c) w")
  case (Inl x)
  show ?thesis
  proof (cases "x = vk_SystemError eErrorSurfaceLostKHR")
    case True
    show ?thesis
      by (rule stopped [OF stage_read_lost [OF sw Inl [unfolded True]], of "[]"]) (simp_all add: sw)
  next
    case False
    show ?thesis
      by (rule thrown [OF stage_read_throws [OF sw Inl False], of "[]"]) (simp_all add: sw)
  qed
next
  case (Inr r)
  obtain n e where r: "r = (n, e)" by (cases r)
  note rd = Inr [unfolded r]
  show ?thesis
  proof (cases "extent_out_of_range c e")
    case True
    show ?thesis
      by (rule stopped [OF stage_out_of_range [OF sw rd True], of "[]"]) simp_all
  next
    case inr: False
    show ?thesis
    proof (cases "createSwapchainKHR c = eErrorSurfaceLostKHR")
      case True
      show ?thesis
        by (rule stopped [OF stage_create_lost [OF sw rd inr True]]) simp_all
    next
      case nl: False
      show ?thesis
      proof (cases "createSwapchainKHR c = eSuccess")
        case False
        show ?thesis
          by (rule thrown [OF stage_create_throws [OF sw rd inr False nl]]) (simp_all add: sw)
      next
        case ok: True
        show ?thesis
        proof (cases "getImageCountAndExtent c (surfaceCapabilities_check c) w")
          case (Inl x)
          show ?thesis
          proof (cases "x = vk_SystemError eErrorSurfaceLostKHR")
            case True
            show ?thesis
              by (rule stopped [OF stage_check_lost [OF sw rd inr ok Inl [unfolded True]]]) simp_all
          next
            case False
            show ?thesis
              by (rule thrown [OF stage_check_throws_window [OF sw rd inr ok Inl False]])
                 (simp_all add: sw)
          qed
        next
          case (Inr r')
          obtain n' e' where r': "r' = (n', e')" by (cases r')
          note ck = Inr [unfolded r']
          show ?thesis
          proof (cases "n' = n \<and> e' = e")
            case True
            then have ck': "getImageCountAndExtent c (surfaceCapabilities_check c) w = Inr (n, e)"
              using ck by simp
            show ?thesis
              by (rule ready [OF stage_ready [OF sw rd inr ok ck']])
                 (simp_all add: reset_notin_resources fence_after_append fence_after_resources)
          next
            case False
            then have ne: "n' \<noteq> n \<or> e' \<noteq> e" by simp
            show ?thesis
              by (rule stopped [OF stage_check_changed [OF sw rd inr ok ck ne]])
                 (simp_all add: sw)
          qed
        qed
      qed
    qed
  qed
qed

lemma build_result:
  obtains (kept) "build c w = Inr w"
  | (thrown) x k cs where "build c w = Inl (x, k)" "state k \<noteq> ReadyToRender"
      "ResetFences \<notin> set cs" "calls k = calls w @ cs"
  | (stopped) k cs where "build c w = Inr k" "state k \<noteq> ReadyToRender"
      "ResetFences \<notin> set cs" "calls k = calls w @ cs"
  | (ready) k cs where "build c w = Inr k" "state k = ReadyToRender"
      "ResetFences \<notin> set cs" "fence_after (calls k) = signaled" "calls k = calls w @ cs"
proof -
  consider (idle) "state w = ReadyToRender \<or> state w = NoWindow \<or> State_ge (state w) SwapchainLost \<or>
           state w = NoDevice \<and> device w = None"
    | (nosurf) "state w = NoSurface" "device w = None"
    | (noswap) "state w = NoSwapchain" "device w = None"
    | (fails) "device w \<noteq> None" "state w = NoSurface \<or> state w = NoDevice" "score c \<le> 0"
    | (reach) "reaches_swapchain_stage c w"
    by (cases "state w"; cases "device w = None"; cases "0 < score c")
       (auto simp: reaches_swapchain_stage_def State_ge_def)
  then show ?thesis
  proof cases
    case idle
    then show ?thesis using kept build_idle [of w c] by blast
  next
    case nosurf
    then have "build c w = Inl (assertion_failure, w\<lparr>calls := calls w @ [Create surface]\<rparr>)"
      by (simp add: build_def buildSurface_def Let_def)
    then show ?thesis by (rule thrown) (simp_all add: nosurf)
  next
    case noswap
    then have "build c w = Inl (assertion_failure, w)"
      by (simp add: build_at_NoSwapchain stage_no_device)
    then show ?thesis by (rule thrown [of _ _ "[]"]) (simp_all add: noswap)
  next
    case fails
    show ?thesis
      by (rule stopped [OF build_surface_fails [OF fails]]) (auto simp: all_pipelines_def)
  next
    case reach
    let ?p = "w\<lparr>calls := calls w @ surface_stage_calls (state w), state := NoSwapchain\<rparr>"
    note sp = reaches_prepared(1) [OF reach] and dp = reaches_prepared(2) [OF reach]
    note b = build_reaches [OF reach]
    have cp: "calls ?p = calls w @ surface_stage_calls (state w)" by simp
    from sp dp show ?thesis
    proof (cases rule: stage_result [where c = c])
      case (thrown x k cs)
      show ?thesis
        by (rule that(2) [of x k "surface_stage_calls (state w) @ cs"])
           (simp_all add: b thrown cp reset_notin_surface_stage del: Window.simps)
    next
      case (stopped k cs)
      show ?thesis
        by (rule that(3) [of k "surface_stage_calls (state w) @ cs"])
           (simp_all add: b stopped cp reset_notin_surface_stage del: Window.simps)
    next
      case (ready k cs)
      have ck: "calls k = calls w @ surface_stage_calls (state w) @ cs"
        using ready(5) cp by simp
      have f: "fence_after (calls w @ surface_stage_calls (state w) @ cs) = signaled"
        using ready(4) ck by simp
      show ?thesis
        by (rule that(4) [of k "surface_stage_calls (state w) @ cs"])
           (simp_all add: b ready(1,2,3) f ck reset_notin_surface_stage)
    qed
  qed
qed

lemma fence_after_frame:
  assumes "fence_after cs = signaled \<or> fence_after cs = pending"
  shows "fence_after (cs @ frame_calls fb i) = pending"
  using assms by (auto simp: fence_after_append frame_calls_def)

lemma reset_once_in_frame:
  "frame_calls fb i = WaitForFences (- 1) # ResetFences # drop 2 (frame_calls fb i)"
  "ResetFences \<notin> set (drop 2 (frame_calls fb i))"
  "QueueSubmit [] [] 0 [] True \<in> set (drop 2 (frame_calls fb i))"
  by (simp_all add: frame_calls_def)

lemma draw_frame_result:
  assumes d: "device w \<noteq> None" and l: "unat i < length (swapchainFramebuffers w)"
    and s: "state w = ReadyToRender"
  obtains (presented) k where "draw_frame c i w = Inr k" "state k = ReadyToRender"
      "calls k = calls w @ frame_calls (swapchainFramebuffers w ! unat i) i"
  | (thrown) x k where "draw_frame c i w = Inl (x, k)"
      "calls k = calls w @ frame_calls (swapchainFramebuffers w ! unat i) i"
  | (lost) k tail where "draw_frame c i w = Inr k" "state k \<noteq> ReadyToRender"
      "ResetFences \<notin> set tail"
      "calls k = calls w @ frame_calls (swapchainFramebuffers w ! unat i) i @ tail"
proof -
  let ?fc = "frame_calls (swapchainFramebuffers w ! unat i) i"
  let ?w0 = "w\<lparr>calls := calls w @ butlast ?fc\<rparr>"
  let ?w1 = "w\<lparr>calls := calls w @ ?fc\<rparr>"
  have w1: "?w0\<lparr>calls := calls ?w0 @ [PresentKHR [renderFinishedSemaphore] i]\<rparr> = ?w1"
    by (simp add: frame_calls_def)
  have d0: "device ?w0 \<noteq> None" using d by simp
  have d1: "device (?w1\<lparr>state := t\<rparr>) \<noteq> None" for t using d by simp
  note df = draw_frame_eq [OF d l, of c]
  note pc = present_cases [OF d0, of c i renderFinishedSemaphore, unfolded Let_def w1]
  consider (ok) "presentImageToQueue c i renderFinishedSemaphore ?w0 = Inr ?w1"
    | (swap) "presentImageToQueue c i renderFinishedSemaphore ?w0 = Inr (?w1\<lparr>state := SwapchainLost\<rparr>)"
    | (surf) "presentImageToQueue c i renderFinishedSemaphore ?w0 = Inr (?w1\<lparr>state := SurfaceLost\<rparr>)"
    | (thr) x where "presentImageToQueue c i renderFinishedSemaphore ?w0 = Inl (x, ?w1)"
    using pc by (auto split: if_splits)
  then show ?thesis
  proof cases
    case ok
    have "teardown ?w1 = Inr ?w1" using s by (simp add: teardown_below State_ge_def)
    then have "draw_frame c i w = Inr ?w1" by (simp add: df ok)
    then show ?thesis by (rule presented) (simp_all add: s)
  next
    case swap
    have "draw_frame c i w = teardown (?w1\<lparr>state := SwapchainLost\<rparr>)" by (simp add: df swap)
    then show ?thesis
      unfolding teardown_SwapchainLost [OF d1, of SwapchainLost, simplified]
      by (rule lost) (simp_all add: reset_notin_release)
  next
    case surf
    have "draw_frame c i w = teardown (?w1\<lparr>state := SurfaceLost\<rparr>)" by (simp add: df surf)
    then show ?thesis
      unfolding teardown_SurfaceLost [OF d1, of SurfaceLost, simplified]
      by (rule lost) (auto simp add: reset_notin_release all_pipelines_reversed_def)
  next
    case (thr x)
    have "draw_frame c i w = Inl (x, ?w1)" by (simp add: df thr)
    then show ?thesis by (rule thrown) simp
  qed
qed

lemma fence_after_quiet:
  "\<forall>x \<in> set cs. fence_step s x = s \<Longrightarrow> foldl fence_step s cs = s"
  by (induction cs) simp_all

lemma size_check_quiet:
  "foldl fence_step z (size_check_calls c w) = z"
  "ResetFences \<notin> set (size_check_calls c w)"
  by (simp_all add: size_check_calls_def)

lemma frame_shape:
  assumes t: "teardown w = Inr w1" and b: "build c w1 = Inr w2"
    and s: "state w2 = ReadyToRender" and f: "fence_ready w2"
  shows "\<exists>A. ResetFences \<notin> set A \<and>
     (calls (result_window (render c w)) = calls w2 @ A \<and> fence_ready (result_window (render c w)) \<or>
      (\<exists>fb i tail. calls (result_window (render c w)) = calls w2 @ A @ frame_calls fb i @ tail \<and>
          ResetFences \<notin> set tail \<and>
          (fence_after (calls w2 @ A) = signaled \<or> fence_after (calls w2 @ A) = pending) \<and>
          fence_ready (result_window (render c w))))"
proof -
  let ?w3 = "snd (update_window c w2)"
  let ?pre = "size_check_calls c w2 @ [SetLayoutParameters (currentWindowExtent ?w3)]"
  have f2: "fence_after (calls w2) = signaled \<or> fence_after (calls w2) = pending"
    using f s by (simp add: fence_ready_def)
  have c3: "calls ?w3 = calls w2 @ ?pre" by (rule update_window_snd(7))
  have q3: "foldl fence_step z ?pre = z" for z
    by (simp add: size_check_quiet)
  have f3: "fence_after (calls ?w3) = fence_after (calls w2)"
    by (simp only: c3 fence_after_append q3)
  have r3: "ResetFences \<notin> set ?pre" by (simp add: size_check_quiet)
  have s3: "state ?w3 = ReadyToRender" using s by (simp add: update_window_snd)
  have plain: ?thesis
    if "calls (result_window (render c w)) = calls w2 @ A" "ResetFences \<notin> set A"
      "fence_after (calls w2 @ A) = fence_after (calls w2)" for A
    using that f2 by (intro exI [of _ A]) (simp add: fence_ready_def)
  have framed: ?thesis
    if "calls (result_window (render c w)) = calls w2 @ A @ frame_calls fb i @ tail"
      "fence_ready (result_window (render c w))"
      "ResetFences \<notin> set A" "ResetFences \<notin> set tail"
      "fence_after (calls w2 @ A) = signaled \<or> fence_after (calls w2 @ A) = pending"
    for A fb i tail
    using that by blast
  show ?thesis
  proof (cases "needs_redraw c w2")
    case False
    have r: "render c w = Inr ?w3" by (rule render_idle [OF t b s False])
    show ?thesis
      by (rule plain [of ?pre]) (simp_all add: r result_window_def c3 fence_after_append size_check_quiet)
  next
    case True
    note r = render_frame [OF t b s True]
    show ?thesis
    proof (cases "device w2")
      case None
      then have "device ?w3 = None" by (simp add: update_window_snd)
      then have r': "render c w = Inl (assertion_failure, ?w3)"
        by (simp add: r acquire_no_device)
      show ?thesis
        by (rule plain [of ?pre]) (simp_all add: r' result_window_def c3 fence_after_append size_check_quiet)
    next
      case (Some dv)
      then have d3: "device ?w3 \<noteq> None" by (simp add: update_window_snd)
      let ?acq = "?pre @ [AcquireNextImageKHR 0 imageAvailableSemaphore]"
      let ?w4 = "?w3\<lparr>calls := calls ?w3 @ [AcquireNextImageKHR 0 imageAvailableSemaphore]\<rparr>"
      have c4: "calls ?w4 = calls w2 @ ?acq" using c3 by simp
      have q4: "foldl fence_step z ?acq = z" for z by (simp add: size_check_quiet)
      have r4: "ResetFences \<notin> set ?acq" by (simp add: size_check_quiet)
      have f4: "fence_after (calls w2 @ ?acq) = fence_after (calls w2)"
        by (simp only: fence_after_append q4)
      show ?thesis
      proof (cases "fst (acquireNextImageKHR c) = eSuccess")
        case False
        have "calls (result_window (render c w)) = calls w2 @ ?acq"
          using False c4 by (auto simp add: r acquire_cases [OF d3] result_window_def Let_def)
        then show ?thesis using r4 f4 by (rule plain)
      next
        case True
        let ?i = "snd (acquireNextImageKHR c)"
        have r': "render c w = draw_frame c ?i ?w4"
          using True by (simp add: r acquire_cases [OF d3] Let_def)
        show ?thesis
        proof (cases "unat ?i < length (swapchainFramebuffers ?w4)")
          case False
          then have "render c w = Inl (out_of_range, ?w4)" by (simp add: r' draw_frame_range)
          then have "calls (result_window (render c w)) = calls w2 @ ?acq"
            using c4 by (simp add: result_window_def)
          then show ?thesis using r4 f4 by (rule plain)
        next
          case l4: True
          have d4: "device ?w4 \<noteq> None" using d3 by simp
          have s4: "state ?w4 = ReadyToRender" using s3 by simp
          let ?fb = "swapchainFramebuffers ?w4 ! unat ?i"
          have fa: "fence_after (calls w2 @ ?acq) = signaled \<or> fence_after (calls w2 @ ?acq) = pending"
            using f2 f4 by simp
          have ff: "fence_after (calls w2 @ ?acq @ frame_calls ?fb ?i) = pending"
            using fence_after_frame [OF fa, of ?fb ?i] by simp
          from d4 l4 s4 show ?thesis
          proof (cases rule: draw_frame_result [where c = c])
            case (presented k)
            have "calls (result_window (render c w)) = calls w2 @ ?acq @ frame_calls ?fb ?i @ []"
              using presented c4 by (simp add: r' result_window_def)
            moreover have "fence_ready (result_window (render c w))"
              using presented c4 ff by (simp add: r' result_window_def fence_ready_def)
            ultimately show ?thesis using r4 _ fa by (rule framed) simp
          next
            case (thrown x k)
            have "calls (result_window (render c w)) = calls w2 @ ?acq @ frame_calls ?fb ?i @ []"
              using thrown c4 by (simp add: r' result_window_def)
            moreover have "fence_ready (result_window (render c w))"
              using thrown c4 ff by (simp add: r' result_window_def fence_ready_def)
            ultimately show ?thesis using r4 _ fa by (rule framed) simp
          next
            case (lost k tail)
            have "calls (result_window (render c w)) = calls w2 @ ?acq @ frame_calls ?fb ?i @ tail"
              using lost c4 by (simp add: r' result_window_def)
            moreover have "fence_ready (result_window (render c w))"
              using lost by (simp add: r' result_window_def fence_ready_def)
            ultimately show ?thesis using r4 lost(3) fa by (rule framed)
          qed
        qed
      qed
    qed
  qed
qed

lemma render_shape:
  assumes f: "fence_ready w"
  shows "\<exists>A. ResetFences \<notin> set A \<and>
     (calls (result_window (render c w)) = calls w @ A \<and> fence_ready (result_window (render c w)) \<or>
      (\<exists>fb i tail. calls (result_window (render c w)) = calls w @ A @ frame_calls fb i @ tail \<and>
          ResetFences \<notin> set tail \<and>
          (fence_after (calls w @ A) = signaled \<or> fence_after (calls w @ A) = pending) \<and>
          fence_ready (result_window (render c w))))"
proof -
  have plain: ?thesis
    if "calls (result_window (render c w)) = calls w @ A" "ResetFences \<notin> set A"
      "fence_ready (result_window (render c w))" for A
    using that by blast
  have after_build: ?thesis
    if t: "teardown w = Inr w1" and b: "build c w1 = Inr w2" and f2: "fence_ready w2"
      and c2: "calls w2 = calls w @ cs" and r2: "ResetFences \<notin> set cs" for w1 w2 cs
  proof (cases "state w2 = ReadyToRender")
    case False
    have "render c w = Inr w2" by (rule render_not_ready [OF t b False])
    then show ?thesis using c2 r2 f2 by (intro plain [of cs]) (simp_all add: result_window_def)
  next
    case True
    from frame_shape [OF t b True f2, of ] obtain A where A: "ResetFences \<notin> set A"
      "calls (result_window (render c w)) = calls w2 @ A \<and> fence_ready (result_window (render c w)) \<or>
      (\<exists>fb i tail. calls (result_window (render c w)) = calls w2 @ A @ frame_calls fb i @ tail \<and>
          ResetFences \<notin> set tail \<and>
          (fence_after (calls w2 @ A) = signaled \<or> fence_after (calls w2 @ A) = pending) \<and>
          fence_ready (result_window (render c w)))"
      by blast
    have r: "ResetFences \<notin> set (cs @ A)" using r2 A(1) by simp
    from A(2) show ?thesis
    proof
      assume "calls (result_window (render c w)) = calls w2 @ A \<and> fence_ready (result_window (render c w))"
      then show ?thesis using c2 r by (intro plain [of "cs @ A"]) simp_all
    next
      assume "\<exists>fb i tail. calls (result_window (render c w)) = calls w2 @ A @ frame_calls fb i @ tail \<and>
          ResetFences \<notin> set tail \<and>
          (fence_after (calls w2 @ A) = signaled \<or> fence_after (calls w2 @ A) = pending) \<and>
          fence_ready (result_window (render c w))"
      then obtain fb i tail where
        "calls (result_window (render c w)) = calls w @ (cs @ A) @ frame_calls fb i @ tail"
        "ResetFences \<notin> set tail"
        "fence_after (calls w @ (cs @ A)) = signaled \<or> fence_after (calls w @ (cs @ A)) = pending"
        "fence_ready (result_window (render c w))"
        using c2 by auto
      with r show ?thesis by blast
    qed
  qed
  have after_teardown: ?thesis
    if t: "teardown w = Inr w1" and f1: "fence_ready w1"
      and c1: "calls w1 = calls w @ cs" and r1: "ResetFences \<notin> set cs" for w1 cs
  proof (cases rule: build_result [of c w1])
    case kept
    show ?thesis by (rule after_build [OF t kept f1 c1 r1])
  next
    case (thrown x k cs')
    have "render c w = Inl (x, k)" using t thrown(1) by (simp add: render_def)
    then show ?thesis
      using thrown c1 r1 by (intro plain [of "cs @ cs'"]) (simp_all add: result_window_def fence_ready_def)
  next
    case (stopped k cs')
    have "fence_ready k" using stopped(2) by (simp add: fence_ready_def)
    then show ?thesis
      using stopped c1 r1 by (intro after_build [OF t stopped(1), of "cs @ cs'"]) simp_all
  next
    case (ready k cs')
    have "fence_ready k" using ready(4) by (simp add: fence_ready_def)
    then show ?thesis
      using ready c1 r1 by (intro after_build [OF t ready(1), of "cs @ cs'"]) simp_all
  qed
  show ?thesis
  proof (cases rule: teardown_result [of w])
    case kept
    show ?thesis by (rule after_teardown [OF kept f, of "[]"]) simp_all
  next
    case asserted
    have "render c w = Inl (assertion_failure, w)" using asserted(1) by (simp add: render_def)
    then show ?thesis using f by (intro plain [of "[]"]) (simp_all add: result_window_def)
  next
    case (released k cs)
    have "fence_ready k" using released(2) by (simp add: fence_ready_def)
    then show ?thesis using released by (intro after_teardown [OF released(1), of cs]) simp_all
  qed
qed

text \<open>
  Claim C10. \<^verbatim>\<open>buildSemaphores\<close> creates the fence signaled. Over one call of
  \<^verbatim>\<open>render\<close>, whatever path it takes and whether it returns or throws: if the
  fence was signaled or pending whenever the window was in \<open>ReadyToRender\<close>, it
  is so again afterwards; every reset of the fence in this call comes directly after
  a wait without timeout, made when the fence was signaled or pending, and is
  followed in the same call by the queue submission that carries the fence.
\<close>

theorem fence_protocol:
  "(device v \<noteq> None \<longrightarrow>
      buildSemaphores v =
        Inr (v\<lparr>calls := calls v @
                 [Create (semaphore imageAvailableSemaphore),
                  Create (semaphore renderFinishedSemaphore), CreateFence True],
               renderFinishedFence := True\<rparr>)) \<and>
   (fence_ready w \<longrightarrow>
      fence_ready (result_window (render c w)) \<and>
      (\<forall>pre post. calls (result_window (render c w)) = calls w @ pre @ ResetFences # post \<longrightarrow>
         (\<exists>pre'. pre = pre' @ [WaitForFences (- 1)] \<and>
            (fence_after (calls w @ pre') = signaled \<or> fence_after (calls w @ pre') = pending)) \<and>
         QueueSubmit [] [] 0 [] True \<in> set post))"
proof (intro conjI impI allI)
  assume "device v \<noteq> None"
  then show "buildSemaphores v =
        Inr (v\<lparr>calls := calls v @
                 [Create (semaphore imageAvailableSemaphore),
                  Create (semaphore renderFinishedSemaphore), CreateFence True],
               renderFinishedFence := True\<rparr>)"
    by (rule buildSemaphores_ok)
next
  assume "fence_ready w"
  from render_shape [OF this, of c] show "fence_ready (result_window (render c w))" by blast
next
  fix pre post
  assume fr: "fence_ready w"
    and split: "calls (result_window (render c w)) = calls w @ pre @ ResetFences # post"
  from render_shape [OF fr, of c] obtain A where A: "ResetFences \<notin> set A"
    "calls (result_window (render c w)) = calls w @ A \<and> fence_ready (result_window (render c w)) \<or>
      (\<exists>fb i tail. calls (result_window (render c w)) = calls w @ A @ frame_calls fb i @ tail \<and>
          ResetFences \<notin> set tail \<and>
          (fence_after (calls w @ A) = signaled \<or> fence_after (calls w @ A) = pending) \<and>
          fence_ready (result_window (render c w)))"
    by blast
  from A(2) have "\<exists>fb i tail. calls (result_window (render c w)) = calls w @ A @ frame_calls fb i @ tail \<and>
          ResetFences \<notin> set tail \<and>
          (fence_after (calls w @ A) = signaled \<or> fence_after (calls w @ A) = pending)"
  proof
    assume "calls (result_window (render c w)) = calls w @ A \<and> fence_ready (result_window (render c w))"
    with split have "A = pre @ ResetFences # post" by simp
    with A(1) show ?thesis by simp
  qed blast
  then obtain fb i tail where sh:
    "calls (result_window (render c w)) = calls w @ A @ frame_calls fb i @ tail"
    "ResetFences \<notin> set tail"
    "fence_after (calls w @ A) = signaled \<or> fence_after (calls w @ A) = pending"
    by blast
  let ?rest = "drop 2 (frame_calls fb i)"
  have "calls w @ pre @ ResetFences # post = calls w @ A @ frame_calls fb i @ tail"
    using split sh(1) by simp
  then have "pre @ ResetFences # post = A @ frame_calls fb i @ tail" by simp
  also have "\<dots> = (A @ [WaitForFences (- 1)]) @ ResetFences # (?rest @ tail)"
    by (subst reset_once_in_frame(1)) simp
  finally have e1: "pre @ ResetFences # post =
      (A @ [WaitForFences (- 1)]) @ ResetFences # (?rest @ tail)" .
  have n1: "ResetFences \<notin> set (A @ [WaitForFences (- 1)])" using A(1) by simp
  have n2: "ResetFences \<notin> set (?rest @ tail)" using sh(2) reset_once_in_frame(2) by simp
  from e1 [symmetric] have "A @ [WaitForFences (- 1)] = pre \<and> ?rest @ tail = post"
    unfolding append_Cons_eq_iff [OF n1 n2] .
  then have eq: "pre = A @ [WaitForFences (- 1)]" "post = ?rest @ tail" by blast+
  show "\<exists>pre'. pre = pre' @ [WaitForFences (- 1)] \<and>
            (fence_after (calls w @ pre') = signaled \<or> fence_after (calls w @ pre') = pending)"
    using eq(1) sh(3) by blast
  show "QueueSubmit [] [] 0 [] True \<in> set post"
    using eq(2) reset_once_in_frame(3) by simp
qed

lemma example_frame:
  "render example_conditions (built_window ReadyToRender\<lparr>calls := cs\<rparr>) =
   Inr (built_window ReadyToRender
     \<lparr>calls := cs @ SetLayoutParameters (800, 600) #
        AcquireNextImageKHR 0 imageAvailableSemaphore # frame_calls 11 1\<rparr>)"
proof -
  let ?w = "built_window ReadyToRender\<lparr>calls := cs\<rparr>"
  let ?c = example_conditions
  have t: "teardown ?w = Inr ?w" and b: "build ?c ?w = Inr ?w"
    by (simp_all add: teardown_below build_idle State_ge_def built_window_def)
  have s: "state ?w = ReadyToRender" by (simp add: built_window_def)
  have n: "needs_redraw ?c ?w" by (simp add: needs_redraw_def example_conditions_def)
  let ?w3 = "built_window ReadyToRender\<lparr>calls := cs @ [SetLayoutParameters (800, 600)]\<rparr>"
  let ?w4 = "built_window ReadyToRender\<lparr>calls := cs @ [SetLayoutParameters (800, 600),
                                  AcquireNextImageKHR 0 imageAvailableSemaphore]\<rparr>"
  have u: "snd (update_window ?c ?w) = ?w3"
    by (simp add: update_window_def Let_def built_window_def example_window_def
        example_conditions_def extent_below_def extent_above_def)
  have a: "acquireNextImageFromSwapchain ?c ?w3 = Inr (Some 1, ?w4)"
    by (simp add: acquireNextImageFromSwapchain_def Let_def built_window_def example_window_def
        example_conditions_def)
  have d4: "device ?w4 \<noteq> None" and l4: "unat (1 :: 32 word) < length (swapchainFramebuffers ?w4)"
    by (simp_all add: built_window_def example_window_def)
  have "render ?c ?w = draw_frame ?c 1 ?w4"
    by (simp add: render_frame [OF t b s n] u a)
  also have "\<dots> = teardown (?w4\<lparr>calls := calls ?w4 @ frame_calls 11 1\<rparr>)"
  proof -
    let ?w5 = "?w4\<lparr>calls := calls ?w4 @
      butlast (frame_calls (swapchainFramebuffers ?w4 ! unat (1 :: 32 word)) 1)\<rparr>"
    have pr: "presentImageToQueue ?c 1 renderFinishedSemaphore ?w5 =
        Inr (?w4\<lparr>calls := calls ?w4 @ frame_calls 11 1\<rparr>)"
      by (simp add: presentImageToQueue_def frame_calls_def
          built_window_def example_window_def example_conditions_def)
    show ?thesis unfolding draw_frame_eq [OF d4 l4] pr by simp
  qed
  also have "\<dots> = Inr (?w4\<lparr>calls := calls ?w4 @ frame_calls 11 1\<rparr>)"
    by (simp add: teardown_below State_ge_def built_window_def example_window_def)
  finally show ?thesis
    by (simp add: built_window_def example_window_def)
qed

theorem fence_protocol_witness:
  "device (built_window ReadyToRender) \<noteq> None \<and>
   buildSemaphores (built_window ReadyToRender) =
     Inr (built_window ReadyToRender
            \<lparr>calls := [Create (semaphore imageAvailableSemaphore),
                       Create (semaphore renderFinishedSemaphore), CreateFence True]\<rparr>) \<and>
   fence_ready (built_window ReadyToRender\<lparr>calls := [CreateFence True]\<rparr>) \<and>
   calls (result_window
     (render example_conditions (built_window ReadyToRender\<lparr>calls := [CreateFence True]\<rparr>))) =
     calls (built_window ReadyToRender\<lparr>calls := [CreateFence True]\<rparr>) @
     [SetLayoutParameters (800, 600), AcquireNextImageKHR 0 imageAvailableSemaphore,
      WaitForFences (- 1)] @ ResetFences # drop 2 (frame_calls 11 1) \<and>
   fence_ready (result_window
     (render example_conditions (built_window ReadyToRender\<lparr>calls := [CreateFence True]\<rparr>))) \<and>
   fence_after ([CreateFence True] @
     [SetLayoutParameters (800, 600), AcquireNextImageKHR 0 imageAvailableSemaphore]) = signaled \<and>
   QueueSubmit [] [] 0 [] True \<in> set (drop 2 (frame_calls 11 1))"
proof -
  let ?w = "built_window ReadyToRender\<lparr>calls := [CreateFence True]\<rparr>"
  let ?pre = "[SetLayoutParameters (800, 600), AcquireNextImageKHR 0 imageAvailableSemaphore,
      WaitForFences (- 1)]"
  have d: "device (built_window ReadyToRender) \<noteq> None"
    by (simp add: built_window_def example_window_def)
  have f: "fence_ready ?w" by (simp add: fence_ready_def fence_after_def)
  have c: "calls (result_window (render example_conditions ?w)) =
      calls ?w @ ?pre @ ResetFences # drop 2 (frame_calls 11 1)"
    by (simp add: example_frame result_window_def frame_calls_def)
  note p = fence_protocol [of "built_window ReadyToRender" ?w example_conditions]
  from p d have b: "buildSemaphores (built_window ReadyToRender) =
     Inr (built_window ReadyToRender
            \<lparr>calls := [Create (semaphore imageAvailableSemaphore),
                       Create (semaphore renderFinishedSemaphore), CreateFence True]\<rparr>)"
    by (simp add: built_window_def example_window_def)
  from p f have r: "fence_ready (result_window (render example_conditions ?w))" by blast
  from p f c obtain pre' where pre': "?pre = pre' @ [WaitForFences (- 1)]"
    "fence_after (calls ?w @ pre') = signaled \<or> fence_after (calls ?w @ pre') = pending"
    "QueueSubmit [] [] 0 [] True \<in> set (drop 2 (frame_calls 11 1))"
    by blast
  have s: "fence_after ([CreateFence True] @
     [SetLayoutParameters (800, 600), AcquireNextImageKHR 0 imageAvailableSemaphore]) = signaled"
    by (simp add: fence_after_def)
  from d b f c r s pre'(3) show ?thesis by blast
qed

end
